theory Spec2Isabelle
  imports Main
begin

section \<open>Syntax nodes\<close>

text \<open>
  The extractor reads a TypeScript syntax tree through a few capabilities of its nodes:
  the syntax kind, the text of the name, the modifier list, the optional marker and the
  source position. \<open>SyntaxKind\<close> lists the kinds of \<open>ts.SyntaxKind\<close> that a member of a
  class or of an interface, or a modifier of such a member, can have.
\<close>

datatype SyntaxKind =
    StaticKeyword | ReadonlyKeyword | ProtectedKeyword | AbstractKeyword | PrivateKeyword
  | PublicKeyword | OverrideKeyword | AsyncKeyword | AccessorKeyword | DeclareKeyword
  | ExportKeyword | DefaultKeyword | Decorator
  | MethodDeclaration | MethodSignature | PropertyDeclaration | PropertySignature
  | GetAccessor | SetAccessor | Constructor | IndexSignature | CallSignature
  | ConstructSignature | SemicolonClassElement | ClassStaticBlockDeclaration
  | ClassDeclaration | InterfaceDeclaration

text \<open>
  A member node (\<open>ts.ClassElement | ts.TypeElement\<close>). \<open>name\<close> is \<open>member.name?.getText()\<close>
  (\<open>None\<close> when the node has no name), \<open>modifiers\<close> is the list of \<open>mod.kind\<close> of
  \<open>member.modifiers\<close> (\<open>None\<close> when the node has no modifier array), \<open>questionToken\<close> tells
  whether the optional marker is present.
\<close>

record Member =
  kind :: SyntaxKind
  name :: "string option"
  modifiers :: "SyntaxKind list option"
  questionToken :: bool
  pos :: int

text \<open>A class or interface declaration (\<open>ClassDeclarationLike\<close>).\<close>

record ClassDeclarationLike =
  decl_kind :: SyntaxKind
  decl_name :: string
  decl_modifiers :: "SyntaxKind list option"
  members :: "Member list"

section \<open>Documentation entries\<close>

datatype MemberType = Property | Method | Getter | Setter

datatype MemberTags = Abstract | Static | Readonly | Protected | Optional | Input | Output

datatype EntryType =
  Component | Directive | Interface | NgModule | Pipe | UndecoratedClass

text \<open>
  \<open>PropertyEntry\<close>, with the three fields that only the directive extractor sets
  (absent otherwise).
\<close>

record 'j PropertyEntry =
  prop_name :: string
  prop_type :: string
  memberType :: MemberType
  memberTags :: "MemberTags list"
  prop_description :: string
  prop_jsdocTags :: "'j list"
  inputAlias :: "string option"
  isRequiredInput :: "bool option"
  outputAlias :: "string option"

text \<open>
  \<open>MemberEntry\<close> is the union of \<open>MethodEntry\<close> (the entry of the function extractor, of
  type \<open>'f\<close>, with \<open>memberType\<close> and \<open>memberTags\<close> laid over it) and \<open>PropertyEntry\<close>.
\<close>

datatype ('f, 'j) MemberEntry =
    MethodEntry (functionEntry: 'f) (methodType: MemberType) (methodTags: "MemberTags list")
  | PropertyMember (propertyEntry: "'j PropertyEntry")

fun entryMemberType :: "('f, 'j) MemberEntry \<Rightarrow> MemberType" where
  "entryMemberType (MethodEntry f t tags) = t"
| "entryMemberType (PropertyMember p) = memberType p"

fun entryMemberTags :: "('f, 'j) MemberEntry \<Rightarrow> MemberTags list" where
  "entryMemberTags (MethodEntry f t tags) = tags"
| "entryMemberTags (PropertyMember p) = memberTags p"

text \<open>
  \<open>ClassEntry\<close>, with the fields that \<open>DirectiveEntry\<close> and \<open>PipeEntry\<close> add to it
  (absent in a plain class entry).
\<close>

record ('f, 'g, 'j) ClassEntry =
  entry_name :: string
  isAbstract :: bool
  entryType :: EntryType
  entry_members :: "('f, 'j) MemberEntry list"
  generics :: "'g list"
  description :: string
  jsdocTags :: "'j list"
  rawComment :: string
  isStandalone :: "bool option"
  selector :: "string option"
  exportAs :: "string list option"
  pipeName :: "string option"

section \<open>Collaborators\<close>

text \<open>
  The functions that the extractor imports from other modules: the function extractor,
  the type resolver, the generics extractor, the JsDoc readers and the filter of
  Angular-private names. Their code is not part of the extractor; they are parameters.
  The JsDoc readers are applied to members and to declarations; the record has a field
  for each use.
\<close>

record ('f, 'g, 'j) Collaborators =
  functionExtractor_extract :: "Member \<Rightarrow> 'f"
  extractResolvedTypeString :: "Member \<Rightarrow> string"
  extractJsDocDescription :: "Member \<Rightarrow> string"
  extractJsDocTags :: "Member \<Rightarrow> 'j list"
  isAngularPrivateName :: "string \<Rightarrow> bool"
  extractGenerics :: "ClassDeclarationLike \<Rightarrow> 'g list"
  declJsDocDescription :: "ClassDeclarationLike \<Rightarrow> string"
  declJsDocTags :: "ClassDeclarationLike \<Rightarrow> 'j list"
  extractRawJsDoc :: "ClassDeclarationLike \<Rightarrow> string"

text \<open>Binding metadata of a directive (\<open>InputOrOutput\<close>, \<open>InputMapping\<close>).\<close>

record InputOrOutput =
  classPropertyName :: string
  bindingPropertyName :: string

record InputMapping = InputOrOutput +
  required :: bool

text \<open>
  \<open>DirectiveMeta\<close>, \<open>PipeMeta\<close> and \<open>NgModuleMeta\<close>, with the fields the extractors read
  (the module extractor reads none). \<open>inputs\<close> and \<open>outputs\<close> are the
  \<open>getByClassPropertyName\<close> lookups, which the code reaches through \<open>?.\<close>.
\<close>

record DirectiveMeta =
  dir_isStandalone :: bool
  dir_selector :: "string option"
  dir_exportAs :: "string list option"
  isComponent :: bool
  inputs :: "(string \<Rightarrow> InputMapping option) option"
  outputs :: "(string \<Rightarrow> InputOrOutput option) option"

record PipeMeta =
  pipe_name :: string
  pipe_isStandalone :: bool

type_synonym NgModuleMeta = unit

record MetadataReader =
  getDirectiveMetadata :: "ClassDeclarationLike \<Rightarrow> DirectiveMeta option"
  getPipeMetadata :: "ClassDeclarationLike \<Rightarrow> PipeMeta option"
  getNgModuleMetadata :: "ClassDeclarationLike \<Rightarrow> NgModuleMeta option"

section \<open>The extractors\<close>

text \<open>
  The class hierarchy \<open>ClassExtractor\<close>, \<open>DirectiveExtractor\<close>, \<open>PipeExtractor\<close>,
  \<open>NgModuleExtractor\<close>: an extractor object is its declaration and its class, the
  subclasses with their metadata. A method that a subclass overrides branches on
  \<open>variant\<close>. The field \<open>this.declaration\<close> is \<open>this_declaration\<close> here, the shorter
  word being reserved by the prover.
\<close>

datatype ExtractorClass =
    ClassExtractor
  | DirectiveExtractor DirectiveMeta
  | PipeExtractor PipeMeta
  | NgModuleExtractor NgModuleMeta

record Extractor =
  this_declaration :: ClassDeclarationLike
  variant :: ExtractorClass

text \<open>A read of a property of \<open>undefined\<close> throws; the model returns it as a value.\<close>

datatype error = TypeError

definition isProperty :: "Member \<Rightarrow> bool" where
  "isProperty member \<longleftrightarrow> kind member = PropertyDeclaration \<or> kind member = PropertySignature"

definition isMethod :: "Member \<Rightarrow> bool" where
  "isMethod member \<longleftrightarrow> kind member = MethodDeclaration \<or> kind member = MethodSignature"

definition isAccessor :: "Member \<Rightarrow> bool" where
  "isAccessor member \<longleftrightarrow> kind member = GetAccessor \<or> kind member = SetAccessor"

definition isDocumentableMember :: "Member \<Rightarrow> bool" where
  "isDocumentableMember member \<longleftrightarrow> isMethod member \<or> isProperty member \<or> isAccessor member"

text \<open>
  \<open>isMemberExcluded\<close>: the four tests are joined by \<open>||\<close>, so the name filter runs only
  on a member that has a name.
\<close>

definition isMemberExcluded :: "('f, 'g, 'j) Collaborators \<Rightarrow> Member \<Rightarrow> bool" where
  "isMemberExcluded ext member =
     (case name member of
        None \<Rightarrow> True
      | Some text \<Rightarrow>
          \<not> isDocumentableMember member
          \<or> (case modifiers member of
                None \<Rightarrow> False
              | Some mods \<Rightarrow> list_ex (\<lambda>modifier. modifier = PrivateKeyword) mods)
          \<or> isAngularPrivateName ext text)"

fun getTagForMemberModifier :: "SyntaxKind \<Rightarrow> MemberTags option" where
  "getTagForMemberModifier StaticKeyword = Some Static"
| "getTagForMemberModifier ReadonlyKeyword = Some Readonly"
| "getTagForMemberModifier ProtectedKeyword = Some Protected"
| "getTagForMemberModifier AbstractKeyword = Some Abstract"
| "getTagForMemberModifier _ = None"

text \<open>The loop of \<open>getMemberTagsFromModifiers\<close>: \<open>tags\<close> starts empty and grows by \<open>push\<close>.\<close>

definition getMemberTagsFromModifiers :: "SyntaxKind list \<Rightarrow> MemberTags list" where
  "getMemberTagsFromModifiers mods =
     fold (\<lambda>modifier tags. case getTagForMemberModifier modifier of
                         Some tag \<Rightarrow> tags @ [tag]
                       | None \<Rightarrow> tags) mods []"

definition getMemberTags :: "Member \<Rightarrow> MemberTags list" where
  "getMemberTags member =
     (let tags = getMemberTagsFromModifiers
                   (case modifiers member of None \<Rightarrow> [] | Some mods \<Rightarrow> mods)
      in if questionToken member then tags @ [Optional] else tags)"

text \<open>
  \<open>isImplementationForOverload\<close>. \<open>method.name.getText()\<close> throws on a node without a
  name, and so does \<open>.pos\<close> of the last element of an empty array (a method that is not
  among the members of the extractor's declaration).
\<close>

definition isImplementationForOverload :: "Extractor \<Rightarrow> Member \<Rightarrow> error + bool" where
  "isImplementationForOverload this method =
     (if kind method = MethodSignature then Inr False
      else case name method of
        None \<Rightarrow> Inl TypeError
      | Some text \<Rightarrow>
          (let methodsWithSameName =
                 sort_key pos
                   (filter (\<lambda>member. name member = Some text) (members (this_declaration this)))
           in if length methodsWithSameName = 1 then Inr False
              else if methodsWithSameName = [] then Inl TypeError
              else Inr (pos method = pos (last methodsWithSameName))))"

definition extractMethod ::
  "('f, 'g, 'j) Collaborators \<Rightarrow> Member \<Rightarrow> ('f, 'j) MemberEntry" where
  "extractMethod ext methodDeclaration =
     MethodEntry (functionExtractor_extract ext methodDeclaration) Method
       (getMemberTags methodDeclaration)"

text \<open>\<open>ClassExtractor.extractClassProperty\<close>.\<close>

definition base_extractClassProperty ::
  "('f, 'g, 'j) Collaborators \<Rightarrow> Member \<Rightarrow> error + 'j PropertyEntry" where
  "base_extractClassProperty ext propertyDeclaration =
     (case name propertyDeclaration of
        None \<Rightarrow> Inl TypeError
      | Some text \<Rightarrow> Inr
          \<lparr> prop_name = text,
            prop_type = extractResolvedTypeString ext propertyDeclaration,
            memberType = Property,
            memberTags = getMemberTags propertyDeclaration,
            prop_description = extractJsDocDescription ext propertyDeclaration,
            prop_jsdocTags = extractJsDocTags ext propertyDeclaration,
            inputAlias = None,
            isRequiredInput = None,
            outputAlias = None \<rparr>)"

definition getInputMetadata :: "DirectiveMeta \<Rightarrow> string \<Rightarrow> InputMapping option" where
  "getInputMetadata metadata propName =
     (case inputs metadata of None \<Rightarrow> None | Some m \<Rightarrow> m propName)"

definition getOutputMetadata :: "DirectiveMeta \<Rightarrow> string \<Rightarrow> InputOrOutput option" where
  "getOutputMetadata metadata propName =
     (case outputs metadata of None \<Rightarrow> None | Some m \<Rightarrow> m propName)"

text \<open>
  \<open>DirectiveExtractor.extractClassProperty\<close>: the entry of the base class, then the input
  metadata, then the output metadata, both looked up by \<open>prop.name.getText()\<close>.
\<close>

definition directive_extractClassProperty ::
  "('f, 'g, 'j) Collaborators \<Rightarrow> DirectiveMeta \<Rightarrow> Member \<Rightarrow> error + 'j PropertyEntry" where
  "directive_extractClassProperty ext metadata propertyDeclaration =
     (case base_extractClassProperty ext propertyDeclaration of
        Inl e \<Rightarrow> Inl e
      | Inr entry \<Rightarrow>
          (case name propertyDeclaration of
             None \<Rightarrow> Inl TypeError
           | Some propName \<Rightarrow>
               (let entry1 =
                      (case getInputMetadata metadata propName of
                         Some inputMetadata \<Rightarrow>
                           entry\<lparr> memberTags := memberTags entry @ [Input],
                                  inputAlias := Some (bindingPropertyName inputMetadata),
                                  isRequiredInput := Some (required inputMetadata) \<rparr>
                       | None \<Rightarrow> entry);
                    entry2 =
                      (case getOutputMetadata metadata propName of
                         Some outputMetadata \<Rightarrow>
                           entry1\<lparr> memberTags := memberTags entry1 @ [Output],
                                   outputAlias := Some (bindingPropertyName outputMetadata) \<rparr>
                       | None \<Rightarrow> entry1)
                in Inr entry2)))"

text \<open>The call \<open>this.extractClassProperty\<close>, which the directive extractor overrides.\<close>

definition extractClassProperty ::
  "('f, 'g, 'j) Collaborators \<Rightarrow> Extractor \<Rightarrow> Member \<Rightarrow> error + 'j PropertyEntry" where
  "extractClassProperty ext this propertyDeclaration =
     (case variant this of
        DirectiveExtractor metadata \<Rightarrow>
          directive_extractClassProperty ext metadata propertyDeclaration
      | _ \<Rightarrow> base_extractClassProperty ext propertyDeclaration)"

definition extractGetterSetter ::
  "('f, 'g, 'j) Collaborators \<Rightarrow> Extractor \<Rightarrow> Member \<Rightarrow> error + 'j PropertyEntry" where
  "extractGetterSetter ext this accessor =
     (case extractClassProperty ext this accessor of
        Inl e \<Rightarrow> Inl e
      | Inr entry \<Rightarrow>
          Inr (entry\<lparr> memberType := (if kind accessor = GetAccessor then Getter else Setter) \<rparr>))"

text \<open>
  \<open>extractClassMember\<close>: \<open>None\<close> is \<open>undefined\<close>. The overload test runs only on a method
  (\<open>&&\<close>), and a method that is the implementation of an overload falls through to the
  two other tests, which it fails.
\<close>

definition extractClassMember ::
  "('f, 'g, 'j) Collaborators \<Rightarrow> Extractor \<Rightarrow> Member \<Rightarrow> error + ('f, 'j) MemberEntry option"
  where
  "extractClassMember ext this memberDeclaration =
     (case (if isMethod memberDeclaration
            then isImplementationForOverload this memberDeclaration
            else Inr True) of
        Inl e \<Rightarrow> Inl e
      | Inr impl \<Rightarrow>
          if isMethod memberDeclaration \<and> \<not> impl then
            Inr (Some (extractMethod ext memberDeclaration))
          else if isProperty memberDeclaration then
            (case extractClassProperty ext this memberDeclaration of
               Inl e \<Rightarrow> Inl e | Inr entry \<Rightarrow> Inr (Some (PropertyMember entry)))
          else if isAccessor memberDeclaration then
            (case extractGetterSetter ext this memberDeclaration of
               Inl e \<Rightarrow> Inl e | Inr entry \<Rightarrow> Inr (Some (PropertyMember entry)))
          else Inr None)"

text \<open>
  The loop of \<open>extractAllClassMembers\<close> over the members still to visit, with the entries
  pushed so far.
\<close>

fun extractAllClassMembers_loop ::
  "('f, 'g, 'j) Collaborators \<Rightarrow> Extractor \<Rightarrow> Member list \<Rightarrow> ('f, 'j) MemberEntry list
     \<Rightarrow> error + ('f, 'j) MemberEntry list" where
  "extractAllClassMembers_loop ext this [] entries = Inr entries"
| "extractAllClassMembers_loop ext this (member # rest) entries =
     (if isMemberExcluded ext member then extractAllClassMembers_loop ext this rest entries
      else case extractClassMember ext this member of
        Inl e \<Rightarrow> Inl e
      | Inr None \<Rightarrow> extractAllClassMembers_loop ext this rest entries
      | Inr (Some memberEntry) \<Rightarrow>
          extractAllClassMembers_loop ext this rest (entries @ [memberEntry]))"

definition extractAllClassMembers ::
  "('f, 'g, 'j) Collaborators \<Rightarrow> Extractor \<Rightarrow> ClassDeclarationLike
     \<Rightarrow> error + ('f, 'j) MemberEntry list" where
  "extractAllClassMembers ext this classDeclaration =
     extractAllClassMembers_loop ext this (members classDeclaration) []"

definition decl_isAbstract :: "Extractor \<Rightarrow> bool" where
  "decl_isAbstract this =
     list_ex (\<lambda>modifier. modifier = AbstractKeyword)
       (case decl_modifiers (this_declaration this) of None \<Rightarrow> [] | Some mods \<Rightarrow> mods)"

text \<open>\<open>ClassExtractor.extract\<close>.\<close>

definition base_extract ::
  "('f, 'g, 'j) Collaborators \<Rightarrow> Extractor \<Rightarrow> error + ('f, 'g, 'j) ClassEntry" where
  "base_extract ext this =
     (case extractAllClassMembers ext this (this_declaration this) of
        Inl e \<Rightarrow> Inl e
      | Inr ms \<Rightarrow> Inr
          \<lparr> entry_name = decl_name (this_declaration this),
            isAbstract = decl_isAbstract this,
            entryType = (if decl_kind (this_declaration this) = InterfaceDeclaration
                         then Interface else UndecoratedClass),
            entry_members = ms,
            generics = extractGenerics ext (this_declaration this),
            description = declJsDocDescription ext (this_declaration this),
            jsdocTags = declJsDocTags ext (this_declaration this),
            rawComment = extractRawJsDoc ext (this_declaration this),
            isStandalone = None,
            selector = None,
            exportAs = None,
            pipeName = None \<rparr>)"

text \<open>
  The call \<open>extractor.extract()\<close>, overridden by the three subclasses (\<open>extract\<close> is a
  reserved word of the prover, hence the longer name).
\<close>

definition extractor_extract ::
  "('f, 'g, 'j) Collaborators \<Rightarrow> Extractor \<Rightarrow> error + ('f, 'g, 'j) ClassEntry" where
  "extractor_extract ext this =
     (case base_extract ext this of
        Inl e \<Rightarrow> Inl e
      | Inr entry \<Rightarrow>
          (case variant this of
             ClassExtractor \<Rightarrow> Inr entry
           | DirectiveExtractor metadata \<Rightarrow> Inr
               (entry\<lparr> isStandalone := Some (dir_isStandalone metadata),
                       selector := Some (case dir_selector metadata of None \<Rightarrow> [] | Some s \<Rightarrow> s),
                       exportAs := Some (case dir_exportAs metadata of None \<Rightarrow> [] | Some xs \<Rightarrow> xs),
                       entryType := (if isComponent metadata then Component else Directive) \<rparr>)
           | PipeExtractor metadata \<Rightarrow> Inr
               (entry\<lparr> pipeName := Some (pipe_name metadata),
                       entryType := Pipe,
                       isStandalone := Some (pipe_isStandalone metadata) \<rparr>)
           | NgModuleExtractor metadata \<Rightarrow> Inr (entry\<lparr> entryType := NgModule \<rparr>)))"

text \<open>
  \<open>extractClass\<close>: the three lookups by the reference to the declaration, then the choice
  of the extractor.
\<close>

definition extractClass ::
  "('f, 'g, 'j) Collaborators \<Rightarrow> ClassDeclarationLike \<Rightarrow> MetadataReader
     \<Rightarrow> error + ('f, 'g, 'j) ClassEntry" where
  "extractClass ext classDeclaration metadataReader =
     (let directiveMetadata = getDirectiveMetadata metadataReader classDeclaration;
          pipeMetadata = getPipeMetadata metadataReader classDeclaration;
          ngModuleMetadata = getNgModuleMetadata metadataReader classDeclaration;
          extractor =
            (case directiveMetadata of
               Some dm \<Rightarrow> \<lparr> this_declaration = classDeclaration, variant = DirectiveExtractor dm \<rparr>
             | None \<Rightarrow>
                 (case pipeMetadata of
                    Some pm \<Rightarrow> \<lparr> this_declaration = classDeclaration, variant = PipeExtractor pm \<rparr>
                  | None \<Rightarrow>
                      (case ngModuleMetadata of
                         Some nm \<Rightarrow>
                           \<lparr> this_declaration = classDeclaration, variant = NgModuleExtractor nm \<rparr>
                       | None \<Rightarrow>
                           \<lparr> this_declaration = classDeclaration, variant = ClassExtractor \<rparr>)))
      in extractor_extract ext extractor)"

definition extractInterface ::
  "('f, 'g, 'j) Collaborators \<Rightarrow> ClassDeclarationLike \<Rightarrow> error + ('f, 'g, 'j) ClassEntry" where
  "extractInterface ext interfaceDeclaration =
     extractor_extract ext \<lparr> this_declaration = interfaceDeclaration, variant = ClassExtractor \<rparr>"

section \<open>Skip-hydration checks on the node tree\<close>

text \<open>
  A string of the attribute array is a JavaScript string: a sequence of UTF-16 code
  units, each a number below 65536. \<open>js_string\<close> turns an ASCII literal into its code
  units.
\<close>

type_synonym js_string = "nat list"

definition js_string :: "string \<Rightarrow> js_string" where
  "js_string s = map of_char s"

text \<open>
  An entry of \<open>TAttributes\<close> is a string, a number (an attribute marker) or a selector
  array. A \<open>TNode\<close> is read through \<open>mergedAttrs\<close> and \<open>parent\<close>, both nullable; the
  parent links of a node tree form a finite chain, which the datatype expresses.
\<close>

datatype TAttr = AttrString js_string | AttrMarker int | AttrSelector "js_string list"

datatype TNode = TNode (mergedAttrs: "TAttr list option") (parent: "TNode option")

text \<open>
  \<open>String.prototype.toLowerCase\<close>, the Unicode lower-case conversion without locale. Three
  kinds of character have a lower-case form that contains an ASCII character: the
  letters \<open>A\<close> to \<open>Z\<close> (to \<open>a\<close> to \<open>z\<close>), U+212A KELVIN SIGN (to \<open>k\<close>) and U+0130 LATIN
  CAPITAL LETTER I WITH DOT ABOVE (to \<open>i\<close> followed by U+0307). Every other code unit is
  kept here: its lower-case form, where it has one, lies outside ASCII as the code unit
  itself does, so the comparison of the result with an ASCII string is that of the code.
\<close>

definition toLowerCase_unit :: "nat \<Rightarrow> js_string" where
  "toLowerCase_unit c =
     (if 65 \<le> c \<and> c \<le> 90 then [c + 32]
      else if c = 8490 then [107]
      else if c = 304 then [105, 775]
      else [c])"

definition toLowerCase :: "js_string \<Rightarrow> js_string" where
  "toLowerCase s = concat (map toLowerCase_unit s)"

definition SKIP_HYDRATION_ATTR_NAME :: js_string where
  "SKIP_HYDRATION_ATTR_NAME = js_string ''ngSkipHydration''"

definition SKIP_HYDRATION_ATTR_NAME_LOWER_CASE :: js_string where
  "SKIP_HYDRATION_ATTR_NAME_LOWER_CASE = js_string ''ngskiphydration''"

text \<open>The loop of \<open>hasSkipHydrationAttrOnTNode\<close>, from index \<open>i\<close> in steps of two.\<close>

function hasSkipHydrationAttr_loop :: "TAttr list \<Rightarrow> nat \<Rightarrow> bool" where
  "hasSkipHydrationAttr_loop attrs i =
     (if i < length attrs then
        (case attrs ! i of
           AttrMarker n \<Rightarrow> False
         | AttrString s \<Rightarrow>
             if toLowerCase s = SKIP_HYDRATION_ATTR_NAME_LOWER_CASE then True
             else hasSkipHydrationAttr_loop attrs (i + 2)
         | AttrSelector sel \<Rightarrow> hasSkipHydrationAttr_loop attrs (i + 2))
      else False)"
  by pat_completeness auto
termination
  by (relation "measure (\<lambda>(attrs, i). length attrs - i)") auto

declare hasSkipHydrationAttr_loop.simps [simp del]

definition hasSkipHydrationAttrOnTNode :: "TNode \<Rightarrow> bool" where
  "hasSkipHydrationAttrOnTNode tNode =
     (case mergedAttrs tNode of
        None \<Rightarrow> False
      | Some attrs \<Rightarrow> hasSkipHydrationAttr_loop attrs 0)"

text \<open>The loop of \<open>isInSkipHydrationBlock\<close> on \<open>currentTNode\<close>.\<close>

function isInSkipHydrationBlock_loop :: "TNode option \<Rightarrow> bool" where
  "isInSkipHydrationBlock_loop None = False"
| "isInSkipHydrationBlock_loop (Some currentTNode) =
     (if hasSkipHydrationAttrOnTNode currentTNode then True
      else isInSkipHydrationBlock_loop (parent currentTNode))"
  by pat_completeness auto
termination
proof (relation "measure (size_option size)")
  fix currentTNode :: TNode
  show "(parent currentTNode, Some currentTNode) \<in> measure (size_option size)"
    by (cases currentTNode) simp
qed simp

definition isInSkipHydrationBlock :: "TNode \<Rightarrow> bool" where
  "isInSkipHydrationBlock tNode = isInSkipHydrationBlock_loop (parent tNode)"

text \<open>The strict ancestors of a node, nearest first.\<close>

fun ancestors_from :: "TNode option \<Rightarrow> TNode list" where
  "ancestors_from None = []"
| "ancestors_from (Some (TNode attrs p)) = TNode attrs p # ancestors_from p"

definition ancestors :: "TNode \<Rightarrow> TNode list" where
  "ancestors tNode = ancestors_from (parent tNode)"

text \<open>
  Equality of two strings up to the case of their characters, without a lower-case
  conversion: two code units are the same letter when they are equal, or one is a
  capital \<open>A\<close> to \<open>Z\<close> and the other the small letter 32 above it, or one is the Kelvin
  sign and the other \<open>K\<close> or \<open>k\<close>.
\<close>

definition same_letter :: "nat \<Rightarrow> nat \<Rightarrow> bool" where
  "same_letter c d \<longleftrightarrow>
     c = d
     \<or> (65 \<le> c \<and> c \<le> 90 \<and> d = c + 32)
     \<or> (65 \<le> d \<and> d \<le> 90 \<and> c = d + 32)
     \<or> (c = 8490 \<and> (d = 75 \<or> d = 107))
     \<or> (d = 8490 \<and> (c = 75 \<or> c = 107))"

definition equal_ignoring_case :: "js_string \<Rightarrow> js_string \<Rightarrow> bool" where
  "equal_ignoring_case s t \<longleftrightarrow> list_all2 same_letter s t"

section \<open>Example inputs\<close>

text \<open>\<open>public static readonly size?: number\<close> and \<open>readonly readonly size: number\<close>.\<close>

definition ex_tagged_member :: Member where
  "ex_tagged_member =
     \<lparr> kind = PropertyDeclaration, name = Some ''size'',
       modifiers = Some [PublicKeyword, StaticKeyword, ReadonlyKeyword],
       questionToken = True, pos = 12 \<rparr>"

definition ex_repeated_modifier_member :: Member where
  "ex_repeated_modifier_member =
     \<lparr> kind = PropertyDeclaration, name = Some ''size'',
       modifiers = Some [ReadonlyKeyword, ReadonlyKeyword],
       questionToken = False, pos = 12 \<rparr>"

definition ex_skip_host :: TNode where
  "ex_skip_host =
     TNode (Some [AttrString (js_string ''id''), AttrString (js_string ''main''),
                  AttrString (js_string ''ngSkipHydration''), AttrString []]) None"

definition ex_marker_attrs :: "TAttr list" where
  "ex_marker_attrs =
     [AttrString (js_string ''id''), AttrString (js_string ''main''), AttrMarker 3,
      AttrString (js_string ''ngSkipHydration''), AttrString []]"

text \<open>The name in capitals, and the name written with the Kelvin sign for its \<open>k\<close>.\<close>

definition ex_capitals :: js_string where
  "ex_capitals = js_string ''NGSKIPHYDRATION''"

definition ex_kelvin :: js_string where
  "ex_kelvin = js_string ''ngS'' @ [8490] @ js_string ''ipHydration''"

text \<open>
  Collaborators for the examples: the function extractor returns the position of the
  method it is given, so that an entry tells which member it comes from; the name filter
  hides the names that start with an underscore.
\<close>

definition ex_ext :: "(int, string, string) Collaborators" where
  "ex_ext =
     \<lparr> functionExtractor_extract = pos,
       extractResolvedTypeString = (\<lambda>m. ''string''),
       extractJsDocDescription = (\<lambda>m. []),
       extractJsDocTags = (\<lambda>m. []),
       isAngularPrivateName = (\<lambda>n. case n of [] \<Rightarrow> False | c # cs \<Rightarrow> c = CHR ''_''),
       extractGenerics = (\<lambda>d. []),
       declJsDocDescription = (\<lambda>d. []),
       declJsDocTags = (\<lambda>d. []),
       extractRawJsDoc = (\<lambda>d. []) \<rparr>"

text \<open>
  \<open>class C { foo(a: string): void; foo(a: any) {} bar() {} private p; get v() {} set v(x) {} }\<close>
\<close>

definition ex_foo_signature :: Member where
  "ex_foo_signature =
     \<lparr> kind = MethodDeclaration, name = Some ''foo'', modifiers = None,
       questionToken = False, pos = 10 \<rparr>"

definition ex_foo_implementation :: Member where
  "ex_foo_implementation =
     \<lparr> kind = MethodDeclaration, name = Some ''foo'', modifiers = None,
       questionToken = False, pos = 30 \<rparr>"

definition ex_bar :: Member where
  "ex_bar =
     \<lparr> kind = MethodDeclaration, name = Some ''bar'', modifiers = None,
       questionToken = False, pos = 50 \<rparr>"

definition ex_private :: Member where
  "ex_private =
     \<lparr> kind = PropertyDeclaration, name = Some ''p'', modifiers = Some [PrivateKeyword],
       questionToken = False, pos = 60 \<rparr>"

definition ex_getter :: Member where
  "ex_getter =
     \<lparr> kind = GetAccessor, name = Some ''v'', modifiers = None,
       questionToken = False, pos = 70 \<rparr>"

definition ex_setter :: Member where
  "ex_setter =
     \<lparr> kind = SetAccessor, name = Some ''v'', modifiers = None,
       questionToken = False, pos = 90 \<rparr>"

definition ex_class :: ClassDeclarationLike where
  "ex_class =
     \<lparr> decl_kind = ClassDeclaration, decl_name = ''C'', decl_modifiers = None,
       members = [ex_foo_signature, ex_foo_implementation, ex_bar, ex_private,
                  ex_getter, ex_setter] \<rparr>"

definition ex_this :: Extractor where
  "ex_this = \<lparr> this_declaration = ex_class, variant = ClassExtractor \<rparr>"

text \<open>\<open>class D { foo(a: string): void; foo(a: any) {} }\<close>\<close>

definition ex_overload_class :: ClassDeclarationLike where
  "ex_overload_class =
     \<lparr> decl_kind = ClassDeclaration, decl_name = ''D'', decl_modifiers = None,
       members = [ex_foo_signature, ex_foo_implementation] \<rparr>"

definition ex_overload_this :: Extractor where
  "ex_overload_this = \<lparr> this_declaration = ex_overload_class, variant = ClassExtractor \<rparr>"

text \<open>\<open>interface I { foo(a: string): void; foo(a: number): void; }\<close>\<close>

definition ex_first_signature :: Member where
  "ex_first_signature =
     \<lparr> kind = MethodSignature, name = Some ''foo'', modifiers = None,
       questionToken = False, pos = 10 \<rparr>"

definition ex_second_signature :: Member where
  "ex_second_signature =
     \<lparr> kind = MethodSignature, name = Some ''foo'', modifiers = None,
       questionToken = False, pos = 30 \<rparr>"

definition ex_interface :: ClassDeclarationLike where
  "ex_interface =
     \<lparr> decl_kind = InterfaceDeclaration, decl_name = ''I'', decl_modifiers = None,
       members = [ex_first_signature, ex_second_signature] \<rparr>"

definition ex_interface_this :: Extractor where
  "ex_interface_this = \<lparr> this_declaration = ex_interface, variant = ClassExtractor \<rparr>"

text \<open>
  A directive whose property \<open>value\<close> is an input (alias \<open>val\<close>, required) and an output
  (alias \<open>valueChange\<close>), and a metadata reader that answers both the directive and the
  pipe lookup.
\<close>

definition ex_directive_meta :: DirectiveMeta where
  "ex_directive_meta =
     \<lparr> dir_isStandalone = True, dir_selector = Some ''[ex]'', dir_exportAs = None,
       isComponent = False,
       inputs = Some (\<lambda>n. if n = ''value''
                             then Some \<lparr> classPropertyName = ''value'',
                                         bindingPropertyName = ''val'', required = True \<rparr>
                             else None),
       outputs = Some (\<lambda>n. if n = ''value''
                              then Some \<lparr> classPropertyName = ''value'',
                                          bindingPropertyName = ''valueChange'' \<rparr>
                              else None) \<rparr>"

definition ex_pipe_meta :: PipeMeta where
  "ex_pipe_meta = \<lparr> pipe_name = ''ex'', pipe_isStandalone = False \<rparr>"

definition ex_value_property :: Member where
  "ex_value_property =
     \<lparr> kind = PropertyDeclaration, name = Some ''value'', modifiers = Some [ReadonlyKeyword],
       questionToken = False, pos = 20 \<rparr>"

definition ex_directive_class :: ClassDeclarationLike where
  "ex_directive_class =
     \<lparr> decl_kind = ClassDeclaration, decl_name = ''Ex'', decl_modifiers = None,
       members = [ex_value_property] \<rparr>"

definition ex_directive_this :: Extractor where
  "ex_directive_this =
     \<lparr> this_declaration = ex_directive_class, variant = DirectiveExtractor ex_directive_meta \<rparr>"

definition ex_reader :: MetadataReader where
  "ex_reader =
     \<lparr> getDirectiveMetadata = (\<lambda>d. Some ex_directive_meta),
       getPipeMetadata = (\<lambda>d. Some ex_pipe_meta),
       getNgModuleMetadata = (\<lambda>d. None) \<rparr>"

text \<open>
  The entry of the directive property \<open>value\<close>, the entry of the member
  \<open>public static readonly size?\<close>, a class with the member \<open>readonly readonly size\<close>
  alone, and the entry of that member.
\<close>

definition ex_value_entry :: "string PropertyEntry" where
  "ex_value_entry =
     \<lparr> prop_name = ''value'', prop_type = ''string'', memberType = Property,
       memberTags = [Readonly, Input, Output], prop_description = [], prop_jsdocTags = [],
       inputAlias = Some ''val'', isRequiredInput = Some True,
       outputAlias = Some ''valueChange'' \<rparr>"

definition ex_tagged_entry :: "string PropertyEntry" where
  "ex_tagged_entry =
     \<lparr> prop_name = ''size'', prop_type = ''string'', memberType = Property,
       memberTags = [Static, Readonly, Optional], prop_description = [], prop_jsdocTags = [],
       inputAlias = None, isRequiredInput = None, outputAlias = None \<rparr>"

definition ex_repeated_class :: ClassDeclarationLike where
  "ex_repeated_class =
     \<lparr> decl_kind = ClassDeclaration, decl_name = ''R'', decl_modifiers = None,
       members = [ex_repeated_modifier_member] \<rparr>"

definition ex_repeated_this :: Extractor where
  "ex_repeated_this = \<lparr> this_declaration = ex_repeated_class, variant = ClassExtractor \<rparr>"

definition ex_repeated_entry :: "string PropertyEntry" where
  "ex_repeated_entry =
     \<lparr> prop_name = ''size'', prop_type = ''string'', memberType = Property,
       memberTags = [Readonly, Readonly], prop_description = [], prop_jsdocTags = [],
       inputAlias = None, isRequiredInput = None, outputAlias = None \<rparr>"

section \<open>Member tags\<close>

lemma fold_push_tags:
  "fold (\<lambda>modifier tags. case getTagForMemberModifier modifier of
                              Some tag \<Rightarrow> tags @ [tag]
                            | None \<Rightarrow> tags) mods acc
   = acc @ List.map_filter getTagForMemberModifier mods"
  by (induction mods arbitrary: acc) (simp_all split: option.split)

lemma getMemberTagsFromModifiers_map_filter:
  "getMemberTagsFromModifiers mods = List.map_filter getTagForMemberModifier mods"
  by (simp add: getMemberTagsFromModifiers_def fold_push_tags)

lemma getTagForMemberModifier_inj:
  "getTagForMemberModifier a = Some t \<Longrightarrow> getTagForMemberModifier b = Some t \<Longrightarrow> a = b"
  by (cases a; cases b; simp)

lemma optional_not_from_modifier:
  "Optional \<notin> set (List.map_filter getTagForMemberModifier mods)"
proof -
  have "getTagForMemberModifier b \<noteq> Some Optional" for b by (cases b) simp_all
  then show ?thesis by (auto simp: map_filter_def)
qed

lemma binding_tags_not_from_modifier:
  "Input \<notin> set (List.map_filter getTagForMemberModifier mods)
   \<and> Output \<notin> set (List.map_filter getTagForMemberModifier mods)"
proof -
  have "getTagForMemberModifier b \<noteq> Some Input \<and> getTagForMemberModifier b \<noteq> Some Output"
    for b by (cases b) simp_all
  then show ?thesis by (auto simp: map_filter_def)
qed

lemma distinct_tags_iff:
  "distinct (List.map_filter getTagForMemberModifier mods)
   \<longleftrightarrow> distinct (filter (\<lambda>k. getTagForMemberModifier k \<noteq> None) mods)"
proof -
  have "inj_on (the \<circ> getTagForMemberModifier)
          (set (filter (\<lambda>k. getTagForMemberModifier k \<noteq> None) mods))"
    by (rule inj_onI) (auto dest: getTagForMemberModifier_inj)
  then show ?thesis by (simp add: map_filter_def distinct_map)
qed

lemma getMemberTags_map_filter:
  "getMemberTags member =
     List.map_filter getTagForMemberModifier
       (case modifiers member of None \<Rightarrow> [] | Some mods \<Rightarrow> mods)
     @ (if questionToken member then [Optional] else [])"
  by (simp add: getMemberTags_def Let_def getMemberTagsFromModifiers_map_filter)

lemma getTagForMemberModifier_table:
  "getTagForMemberModifier StaticKeyword = Some Static
   \<and> getTagForMemberModifier ReadonlyKeyword = Some Readonly
   \<and> getTagForMemberModifier ProtectedKeyword = Some Protected
   \<and> getTagForMemberModifier AbstractKeyword = Some Abstract
   \<and> (k \<notin> {StaticKeyword, ReadonlyKeyword, ProtectedKeyword, AbstractKeyword}
        \<longrightarrow> getTagForMemberModifier k = None)"
  by (cases k) simp_all

section \<open>The skip-hydration attribute\<close>

lemma ex_nat_cases: "(\<exists>k::nat. P k) \<longleftrightarrow> P 0 \<or> (\<exists>k. P (Suc k))"
  by (metis not0_implies_Suc)

lemma hasSkipHydrationAttr_loop_iff:
  "hasSkipHydrationAttr_loop attrs i \<longleftrightarrow>
     (\<exists>k. i + 2 * k < length attrs
        \<and> (\<exists>s. attrs ! (i + 2 * k) = AttrString s
               \<and> toLowerCase s = SKIP_HYDRATION_ATTR_NAME_LOWER_CASE)
        \<and> (\<forall>l<k. \<forall>n. attrs ! (i + 2 * l) \<noteq> AttrMarker n))"
  (is "?L attrs i \<longleftrightarrow> (\<exists>k. ?R attrs i k)")
proof (induct attrs i rule: hasSkipHydrationAttr_loop.induct)
  case (1 attrs i)
  have shift: "(\<exists>k. ?R attrs (i + 2) k) \<longleftrightarrow> (\<exists>k. ?R attrs i (Suc k))"
    if "\<forall>n. attrs ! i \<noteq> AttrMarker n"
  proof -
    have "?R attrs (i + 2) k \<longleftrightarrow> ?R attrs i (Suc k)" for k
    proof -
      have a: "i + 2 + 2 * l = i + 2 * Suc l" for l by simp
      have "(\<forall>l<Suc k. \<forall>n. attrs ! (i + 2 * l) \<noteq> AttrMarker n)
            \<longleftrightarrow> (\<forall>l<k. \<forall>n. attrs ! (i + 2 * Suc l) \<noteq> AttrMarker n)"
        using that by (simp only: All_less_Suc2) simp
      then show ?thesis unfolding a by simp
    qed
    then show ?thesis by simp
  qed
  show ?case
  proof (cases "i < length attrs")
    case False
    then show ?thesis by (subst hasSkipHydrationAttr_loop.simps) auto
  next
    case inb: True
    show ?thesis
    proof (cases "attrs ! i")
      case (AttrMarker n)
      have "\<not> ?R attrs i k" for k
      proof (cases k)
        case 0
        then show ?thesis using AttrMarker by simp
      next
        case (Suc k')
        then show ?thesis using AttrMarker by (auto intro: exI[of _ 0])
      qed
      then show ?thesis using inb AttrMarker
        by (subst hasSkipHydrationAttr_loop.simps) simp
    next
      case (AttrSelector sel)
      have nm: "\<forall>n. attrs ! i \<noteq> AttrMarker n" using AttrSelector by simp
      have "\<not> ?R attrs i 0" using AttrSelector by simp
      then have "(\<exists>k. ?R attrs i k) \<longleftrightarrow> (\<exists>k. ?R attrs i (Suc k))"
        by (subst ex_nat_cases) blast
      with shift[OF nm] 1(2)[OF inb AttrSelector] inb AttrSelector show ?thesis
        by (subst hasSkipHydrationAttr_loop.simps) simp
    next
      case (AttrString s)
      show ?thesis
      proof (cases "toLowerCase s = SKIP_HYDRATION_ATTR_NAME_LOWER_CASE")
        case True
        then have "?R attrs i 0" using inb AttrString by simp
        then have "\<exists>k. ?R attrs i k" by blast
        then show ?thesis using inb AttrString True
          by (subst hasSkipHydrationAttr_loop.simps) simp
      next
        case False
        have nm: "\<forall>n. attrs ! i \<noteq> AttrMarker n" using AttrString by simp
        have "\<not> ?R attrs i 0" using AttrString False by simp
        then have "(\<exists>k. ?R attrs i k) \<longleftrightarrow> (\<exists>k. ?R attrs i (Suc k))"
          by (subst ex_nat_cases) blast
        with shift[OF nm] 1(1)[OF inb AttrString False] inb AttrString False show ?thesis
          by (subst hasSkipHydrationAttr_loop.simps) simp
      qed
    qed
  qed
qed

lemma hasSkipHydrationAttr_even_iff:
  "hasSkipHydrationAttr_loop attrs 0 \<longleftrightarrow>
     (\<exists>i<length attrs. even i
        \<and> (\<exists>s. attrs ! i = AttrString s
               \<and> toLowerCase s = SKIP_HYDRATION_ATTR_NAME_LOWER_CASE)
        \<and> (\<forall>j<i. even j \<longrightarrow> (\<forall>n. attrs ! j \<noteq> AttrMarker n)))"
  (is "?L \<longleftrightarrow> ?R")
proof
  assume ?L
  then obtain k where k: "2 * k < length attrs"
      "\<exists>s. attrs ! (2 * k) = AttrString s \<and> toLowerCase s = SKIP_HYDRATION_ATTR_NAME_LOWER_CASE"
      "\<forall>l<k. \<forall>n. attrs ! (2 * l) \<noteq> AttrMarker n"
    unfolding hasSkipHydrationAttr_loop_iff by auto
  have "\<forall>j<2 * k. even j \<longrightarrow> (\<forall>n. attrs ! j \<noteq> AttrMarker n)"
  proof (intro allI impI)
    fix j n assume "j < 2 * k" "even j"
    then obtain l where "j = 2 * l" "l < k" by (auto elim: evenE)
    with k(3) show "attrs ! j \<noteq> AttrMarker n" by simp
  qed
  with k(1,2) show ?R by (intro exI[of _ "2 * k"]) simp
next
  assume ?R
  then obtain i where i: "i < length attrs" "even i"
      "\<exists>s. attrs ! i = AttrString s \<and> toLowerCase s = SKIP_HYDRATION_ATTR_NAME_LOWER_CASE"
      "\<forall>j<i. even j \<longrightarrow> (\<forall>n. attrs ! j \<noteq> AttrMarker n)"
    by auto
  from i(2) obtain k where ik: "i = 2 * k" by (auto elim: evenE)
  have "\<forall>l<k. \<forall>n. attrs ! (2 * l) \<noteq> AttrMarker n"
    using i(4) ik by simp
  with i(1,3) ik show ?L
    unfolding hasSkipHydrationAttr_loop_iff by (intro exI[of _ k]) simp
qed

lemma hasSkipHydrationAttr_cut_at_marker:
  assumes k: "k < length attrs" "even k" "attrs ! k = AttrMarker n"
  shows "hasSkipHydrationAttr_loop attrs 0 = hasSkipHydrationAttr_loop (take k attrs) 0"
proof
  assume "hasSkipHydrationAttr_loop attrs 0"
  then obtain i where i: "i < length attrs" "even i"
    "\<exists>s. attrs ! i = AttrString s \<and> toLowerCase s = SKIP_HYDRATION_ATTR_NAME_LOWER_CASE"
    "\<forall>j<i. even j \<longrightarrow> (\<forall>n. attrs ! j \<noteq> AttrMarker n)"
    unfolding hasSkipHydrationAttr_even_iff by auto
  have "i < k"
  proof (rule ccontr)
    assume "\<not> i < k"
    with i(3) k(3) have "k < i" by (cases "i = k") auto
    with i(4) k(2,3) show False by blast
  qed
  with i k(1) show "hasSkipHydrationAttr_loop (take k attrs) 0"
    unfolding hasSkipHydrationAttr_even_iff by (intro exI[of _ i]) simp
next
  assume "hasSkipHydrationAttr_loop (take k attrs) 0"
  then obtain i where i: "i < length (take k attrs)" "even i"
    "\<exists>s. take k attrs ! i = AttrString s \<and> toLowerCase s = SKIP_HYDRATION_ATTR_NAME_LOWER_CASE"
    "\<forall>j<i. even j \<longrightarrow> (\<forall>n. take k attrs ! j \<noteq> AttrMarker n)"
    unfolding hasSkipHydrationAttr_even_iff by auto
  from i(1) k(1) have ik: "i < k" "i < length attrs" by simp_all
  with i(3,4) have
    "\<exists>s. attrs ! i = AttrString s \<and> toLowerCase s = SKIP_HYDRATION_ATTR_NAME_LOWER_CASE"
    "\<forall>j<i. even j \<longrightarrow> (\<forall>n. attrs ! j \<noteq> AttrMarker n)" by simp_all
  with ik i(2) show "hasSkipHydrationAttr_loop attrs 0"
    unfolding hasSkipHydrationAttr_even_iff by (intro exI[of _ i]) simp
qed

lemma toLowerCase_Cons: "toLowerCase (c # s) = toLowerCase_unit c @ toLowerCase s"
  by (simp add: toLowerCase_def)

lemma toLowerCase_Nil: "toLowerCase [] = []"
  by (simp add: toLowerCase_def)

lemma toLowerCase_unit_not_Nil: "toLowerCase_unit c \<noteq> []"
  by (simp add: toLowerCase_unit_def)

lemma toLowerCase_Nil_iff: "toLowerCase t = [] \<longleftrightarrow> t = []"
proof (cases t)
  case Nil
  then show ?thesis by (simp add: toLowerCase_def)
next
  case (Cons x t')
  then show ?thesis by (simp add: toLowerCase_Cons toLowerCase_unit_not_Nil)
qed

lemma toLowerCase_unit_letter:
  assumes "(65 \<le> x \<and> x \<le> 90) \<or> (97 \<le> x \<and> x \<le> 122)"
  shows "toLowerCase_unit x = [if x \<le> 90 then x + 32 else x]"
  using assms by (auto simp: toLowerCase_unit_def)

lemma toLowerCase_letters_range:
  assumes "\<forall>x\<in>set t. (65 \<le> x \<and> x \<le> 90) \<or> (97 \<le> x \<and> x \<le> 122)"
  shows "\<forall>y\<in>set (toLowerCase t). 97 \<le> y \<and> y \<le> 122"
  using assms
proof (induction t)
  case Nil
  show ?case by (simp add: toLowerCase_def)
next
  case (Cons x t)
  then have x: "(65 \<le> x \<and> x \<le> 90) \<or> (97 \<le> x \<and> x \<le> 122)" by simp
  from Cons have "\<forall>y\<in>set (toLowerCase t). 97 \<le> y \<and> y \<le> 122" by simp
  moreover have "\<forall>y\<in>set (toLowerCase_unit x). 97 \<le> y \<and> y \<le> 122"
    unfolding toLowerCase_unit_letter[OF x] using x by auto
  ultimately show ?case unfolding toLowerCase_Cons by auto
qed

lemma toLowerCase_unit_same_letter:
  assumes "(65 \<le> x \<and> x \<le> 90) \<or> (97 \<le> x \<and> x \<le> 122)" and "c \<noteq> 304"
  shows "toLowerCase_unit c = toLowerCase_unit x \<longleftrightarrow> same_letter c x"
  using assms by (auto simp: toLowerCase_unit_def same_letter_def)

lemma same_letter_not_dotted_I:
  assumes "(65 \<le> x \<and> x \<le> 90) \<or> (97 \<le> x \<and> x \<le> 122)"
  shows "\<not> same_letter 304 x"
  using assms by (auto simp: same_letter_def)

text \<open>
  Against a string of ASCII letters, equality after the lower-case conversion is
  equality up to case.
\<close>

lemma toLowerCase_eq_iff:
  assumes "\<forall>x\<in>set t. (65 \<le> x \<and> x \<le> 90) \<or> (97 \<le> x \<and> x \<le> 122)"
  shows "toLowerCase s = toLowerCase t \<longleftrightarrow> equal_ignoring_case s t"
  using assms
proof (induction s arbitrary: t)
  case Nil
  have "([] = toLowerCase t) \<longleftrightarrow> t = []" using toLowerCase_Nil_iff[of t] by auto
  then show ?case unfolding toLowerCase_Nil by (simp add: equal_ignoring_case_def)
next
  case (Cons c s)
  show ?case
  proof (cases t)
    case Nil
    then show ?thesis
      by (simp add: equal_ignoring_case_def toLowerCase_Cons toLowerCase_unit_not_Nil
            toLowerCase_Nil)
  next
    case (Cons x t')
    from Cons.prems Cons have x: "(65 \<le> x \<and> x \<le> 90) \<or> (97 \<le> x \<and> x \<le> 122)"
      and t': "\<forall>x\<in>set t'. (65 \<le> x \<and> x \<le> 90) \<or> (97 \<le> x \<and> x \<le> 122)"
      by simp_all
    note IH = Cons.IH[OF t']
    note ux = toLowerCase_unit_letter[OF x]
    show ?thesis
    proof (cases "c = 304")
      case True
      have "toLowerCase (c # s) \<noteq> toLowerCase (x # t')"
      proof
        assume "toLowerCase (c # s) = toLowerCase (x # t')"
        then have "[105, 775] @ toLowerCase s = toLowerCase_unit x @ toLowerCase t'"
          using True by (simp add: toLowerCase_Cons toLowerCase_unit_def)
        then have "775 # toLowerCase s = toLowerCase t'" unfolding ux by simp
        then have "775 \<in> set (toLowerCase t')" by (metis list.set_intros(1))
        with toLowerCase_letters_range[OF t'] show False by auto
      qed
      moreover have "\<not> same_letter c x" using True same_letter_not_dotted_I[OF x] by simp
      ultimately show ?thesis using Cons by (simp add: equal_ignoring_case_def)
    next
      case False
      then have "\<exists>lc. toLowerCase_unit c = [lc]"
        by (simp add: toLowerCase_unit_def)
      then obtain lc where lc: "toLowerCase_unit c = [lc]" by blast
      have "toLowerCase (c # s) = toLowerCase (x # t')
            \<longleftrightarrow> toLowerCase_unit c = toLowerCase_unit x \<and> toLowerCase s = toLowerCase t'"
        unfolding toLowerCase_Cons lc ux by auto
      also have "\<dots> \<longleftrightarrow> same_letter c x \<and> equal_ignoring_case s t'"
        unfolding toLowerCase_unit_same_letter[OF x False] IH ..
      finally show ?thesis using Cons by (simp add: equal_ignoring_case_def)
    qed
  qed
qed

lemma skip_hydration_name_match_iff:
  "toLowerCase s = SKIP_HYDRATION_ATTR_NAME_LOWER_CASE
   \<longleftrightarrow> equal_ignoring_case s SKIP_HYDRATION_ATTR_NAME"
proof -
  have l: "toLowerCase SKIP_HYDRATION_ATTR_NAME = SKIP_HYDRATION_ATTR_NAME_LOWER_CASE"
    by code_simp
  have "list_all (\<lambda>x. (65 \<le> x \<and> x \<le> 90) \<or> (97 \<le> x \<and> x \<le> 122)) SKIP_HYDRATION_ATTR_NAME"
    by code_simp
  then have "\<forall>x\<in>set SKIP_HYDRATION_ATTR_NAME. (65 \<le> x \<and> x \<le> 90) \<or> (97 \<le> x \<and> x \<le> 122)"
    by (simp only: list_all_iff)
  from toLowerCase_eq_iff[OF this, of s] show ?thesis unfolding l .
qed

text \<open>
  C10. \<open>hasSkipHydrationAttrOnTNode\<close> is false on a node whose \<open>mergedAttrs\<close> is null.
  Otherwise it is true exactly when some even index holds a string equal to
  \<open>ngSkipHydration\<close> up to the case of its letters, and no even index before it holds a
  number: only the entries at even indices are compared, whatever the case of the
  name there, and the scan ends with false at the first number it meets. Hence, when a
  marker stands at an even index \<open>k\<close>, the result is that of the attributes before \<open>k\<close>
  alone: no entry after the marker is matched.
\<close>

theorem hasSkipHydrationAttrOnTNode_static_section:
  "\<not> hasSkipHydrationAttrOnTNode (TNode None p)
   \<and> (hasSkipHydrationAttrOnTNode (TNode (Some attrs) p) \<longleftrightarrow>
        (\<exists>i<length attrs. even i
           \<and> (\<exists>s. attrs ! i = AttrString s
                  \<and> equal_ignoring_case s SKIP_HYDRATION_ATTR_NAME)
           \<and> (\<forall>j<i. even j \<longrightarrow> (\<forall>n. attrs ! j \<noteq> AttrMarker n))))
   \<and> (k < length attrs \<and> even k \<and> attrs ! k = AttrMarker n \<longrightarrow>
        hasSkipHydrationAttrOnTNode (TNode (Some attrs) p)
        = hasSkipHydrationAttrOnTNode (TNode (Some (take k attrs)) p))"
proof -
  have a: "\<not> hasSkipHydrationAttrOnTNode (TNode None p)"
    by (simp add: hasSkipHydrationAttrOnTNode_def)
  have b: "hasSkipHydrationAttrOnTNode (TNode (Some xs) p) = hasSkipHydrationAttr_loop xs 0"
    for xs by (simp add: hasSkipHydrationAttrOnTNode_def)
  from a b hasSkipHydrationAttr_cut_at_marker[of k attrs n]
    hasSkipHydrationAttr_even_iff[of attrs]
  show ?thesis by (simp add: skip_hydration_name_match_iff)
qed

theorem hasSkipHydrationAttrOnTNode_static_section_witness:
  "(2::nat) < length ex_marker_attrs \<and> even (2::nat) \<and> ex_marker_attrs ! 2 = AttrMarker 3
   \<and> \<not> hasSkipHydrationAttrOnTNode (TNode (Some ex_marker_attrs) None)
   \<and> hasSkipHydrationAttrOnTNode ex_skip_host
   \<and> equal_ignoring_case ex_capitals SKIP_HYDRATION_ATTR_NAME
   \<and> hasSkipHydrationAttrOnTNode (TNode (Some [AttrString ex_capitals, AttrString []]) None)
   \<and> equal_ignoring_case ex_kelvin SKIP_HYDRATION_ATTR_NAME
   \<and> hasSkipHydrationAttrOnTNode (TNode (Some [AttrString ex_kelvin, AttrString []]) None)
   \<and> \<not> equal_ignoring_case (js_string ''ngSkipHydratio'') SKIP_HYDRATION_ATTR_NAME
   \<and> \<not> hasSkipHydrationAttrOnTNode
         (TNode (Some [AttrString (js_string ''ngSkipHydratio''), AttrString []]) None)"
proof -
  have m: "(2::nat) < length ex_marker_attrs \<and> even (2::nat)
           \<and> ex_marker_attrs ! 2 = AttrMarker 3"
    by (simp add: ex_marker_attrs_def)
  have t: "\<not> hasSkipHydrationAttrOnTNode (TNode (Some (take 2 ex_marker_attrs)) None)"
    by code_simp
  have h: "hasSkipHydrationAttrOnTNode ex_skip_host"
    by code_simp
  note cut = hasSkipHydrationAttrOnTNode_static_section
    [of None ex_marker_attrs 2 3, THEN conjunct2, THEN conjunct2]
  from m cut have c: "hasSkipHydrationAttrOnTNode (TNode (Some ex_marker_attrs) None)
      = hasSkipHydrationAttrOnTNode (TNode (Some (take 2 ex_marker_attrs)) None)"
    by blast
  have match: "hasSkipHydrationAttrOnTNode (TNode (Some [AttrString s, AttrString []]) None)
               \<longleftrightarrow> equal_ignoring_case s SKIP_HYDRATION_ATTR_NAME" for s
  proof -
    note iff = hasSkipHydrationAttrOnTNode_static_section
      [of None "[AttrString s, AttrString []]" 0 0, THEN conjunct2, THEN conjunct1]
    show ?thesis
    proof
      assume "hasSkipHydrationAttrOnTNode (TNode (Some [AttrString s, AttrString []]) None)"
      with iff obtain i u where i: "i < length [AttrString s, AttrString []]" "even i"
        "[AttrString s, AttrString []] ! i = AttrString u"
        "equal_ignoring_case u SKIP_HYDRATION_ATTR_NAME"
        by blast
      from i(1,2) have "i = 0" by (cases i) auto
      with i(3,4) show "equal_ignoring_case s SKIP_HYDRATION_ATTR_NAME" by simp
    next
      assume "equal_ignoring_case s SKIP_HYDRATION_ATTR_NAME"
      then have "\<exists>i<length [AttrString s, AttrString []]. even i
           \<and> (\<exists>u. [AttrString s, AttrString []] ! i = AttrString u
                  \<and> equal_ignoring_case u SKIP_HYDRATION_ATTR_NAME)
           \<and> (\<forall>j<i. even j \<longrightarrow> (\<forall>n. [AttrString s, AttrString []] ! j \<noteq> AttrMarker n))"
        by (intro exI[of _ 0]) simp
      with iff show "hasSkipHydrationAttrOnTNode (TNode (Some [AttrString s, AttrString []]) None)"
        by blast
    qed
  qed
  have e1: "equal_ignoring_case ex_capitals SKIP_HYDRATION_ATTR_NAME" by code_simp
  have e2: "equal_ignoring_case ex_kelvin SKIP_HYDRATION_ATTR_NAME" by code_simp
  have e3: "\<not> equal_ignoring_case (js_string ''ngSkipHydratio'') SKIP_HYDRATION_ATTR_NAME"
    by code_simp
  from e1 e2 e3 match[of ex_capitals] match[of ex_kelvin] match[of "js_string ''ngSkipHydratio''"]
  have "hasSkipHydrationAttrOnTNode (TNode (Some [AttrString ex_capitals, AttrString []]) None)
        \<and> hasSkipHydrationAttrOnTNode (TNode (Some [AttrString ex_kelvin, AttrString []]) None)
        \<and> \<not> hasSkipHydrationAttrOnTNode
              (TNode (Some [AttrString (js_string ''ngSkipHydratio''), AttrString []]) None)"
    by blast
  with m t h c e1 e2 e3 show ?thesis by blast
qed

lemma isInSkipHydrationBlock_loop_iff:
  "isInSkipHydrationBlock_loop c \<longleftrightarrow>
     (\<exists>a\<in>set (ancestors_from c). hasSkipHydrationAttrOnTNode a)"
  by (induct c rule: ancestors_from.induct) auto

text \<open>
  C9. \<open>isInSkipHydrationBlock\<close> is true exactly when some strict ancestor of the node
  carries the skip-hydration attribute. A node that carries the attribute itself while
  no ancestor does is not in a skip-hydration block, and the result does not depend on
  the node's own attributes at all.
\<close>

theorem isInSkipHydrationBlock_strict_ancestors:
  "(isInSkipHydrationBlock tNode \<longleftrightarrow>
      (\<exists>a\<in>set (ancestors tNode). hasSkipHydrationAttrOnTNode a))
   \<and> (hasSkipHydrationAttrOnTNode tNode
        \<and> (\<forall>a\<in>set (ancestors tNode). \<not> hasSkipHydrationAttrOnTNode a)
        \<longrightarrow> \<not> isInSkipHydrationBlock tNode)
   \<and> isInSkipHydrationBlock (TNode attrs p) = isInSkipHydrationBlock (TNode attrs' p)"
  by (simp add: isInSkipHydrationBlock_def ancestors_def isInSkipHydrationBlock_loop_iff)

theorem isInSkipHydrationBlock_strict_ancestors_witness:
  "hasSkipHydrationAttrOnTNode ex_skip_host
   \<and> ancestors ex_skip_host = []
   \<and> \<not> isInSkipHydrationBlock ex_skip_host
   \<and> isInSkipHydrationBlock (TNode None (Some ex_skip_host))"
proof -
  have h: "hasSkipHydrationAttrOnTNode ex_skip_host" by code_simp
  have a: "ancestors ex_skip_host = []"
    by (simp add: ancestors_def ex_skip_host_def)
  have b: "ancestors (TNode None (Some ex_skip_host)) = [ex_skip_host]"
    by (simp add: ancestors_def ex_skip_host_def)
  from h a isInSkipHydrationBlock_strict_ancestors [of ex_skip_host None None None]
  have "\<not> isInSkipHydrationBlock ex_skip_host" by simp
  moreover from h b
    isInSkipHydrationBlock_strict_ancestors [of "TNode None (Some ex_skip_host)" None None None]
  have "isInSkipHydrationBlock (TNode None (Some ex_skip_host))" by simp
  ultimately show ?thesis using h a by simp
qed

section \<open>Overload resolution\<close>

lemma last_sorted_upper:
  "sorted (map f xs) \<Longrightarrow> x \<in> set xs \<Longrightarrow> f x \<le> f (last xs)"
  by (induction xs) (auto split: if_splits)

lemma last_sort_key_upper:
  fixes f :: "'a \<Rightarrow> int"
  assumes "x \<in> set xs"
  shows "f x \<le> f (last (sort_key f xs))"
  using last_sorted_upper[of f "sort_key f xs" x] assms by simp

lemma sort_key_not_Nil:
  "xs \<noteq> [] \<Longrightarrow> sort_key f xs \<noteq> []"
  by (metis set_sort set_empty)

lemma last_sort_key_in:
  assumes "xs \<noteq> []"
  shows "last (sort_key f xs) \<in> set xs"
proof -
  from assms have "sort_key f xs \<noteq> []" by (rule sort_key_not_Nil)
  then have "last (sort_key f xs) \<in> set (sort_key f xs)" by (rule last_in_set)
  then show ?thesis by simp
qed

lemma pos_last_sort_key:
  assumes "x \<in> set xs"
  shows "pos x = pos (last (sort_key pos xs)) \<longleftrightarrow> (\<forall>y\<in>set xs. pos y \<le> pos x)"
proof
  assume "pos x = pos (last (sort_key pos xs))"
  then show "\<forall>y\<in>set xs. pos y \<le> pos x" using last_sort_key_upper[of _ xs pos] by auto
next
  assume a: "\<forall>y\<in>set xs. pos y \<le> pos x"
  from assms have "xs \<noteq> []" by auto
  then have "last (sort_key pos xs) \<in> set xs" by (rule last_sort_key_in)
  with a have "pos (last (sort_key pos xs)) \<le> pos x" by blast
  moreover have "pos x \<le> pos (last (sort_key pos xs))"
    using assms by (rule last_sort_key_upper)
  ultimately show "pos x = pos (last (sort_key pos xs))" by simp
qed

text \<open>
  On a named member of the extractor's own declaration the overload test does not throw,
  and it answers true exactly for a method declaration whose name is carried by more
  than one member and whose position is the last among them.
\<close>

lemma isImplementationForOverload_member:
  assumes "method \<in> set (members (this_declaration this))" and "name method = Some text"
  shows "isImplementationForOverload this method =
           Inr (kind method \<noteq> MethodSignature
                \<and> 1 < length (filter (\<lambda>member. name member = Some text)
                                (members (this_declaration this)))
                \<and> (\<forall>member\<in>set (members (this_declaration this)).
                       name member = Some text \<longrightarrow> pos member \<le> pos method))"
proof -
  let ?g = "filter (\<lambda>member. name member = Some text) (members (this_declaration this))"
  have in_g: "method \<in> set ?g" using assms by simp
  have ne: "?g \<noteq> []" using assms by (auto simp: filter_empty_conv)
  then have len: "length ?g \<noteq> 1 \<longleftrightarrow> 1 < length ?g" by (cases ?g) auto
  have ne': "sort_key pos ?g \<noteq> []" using ne by (rule sort_key_not_Nil)
  have "pos method = pos (last (sort_key pos ?g)) \<longleftrightarrow> (\<forall>y\<in>set ?g. pos y \<le> pos method)"
    using in_g by (rule pos_last_sort_key)
  then show ?thesis
    using assms(2) ne' len by (auto simp: isImplementationForOverload_def Let_def)
qed

section \<open>Extraction of one member\<close>

lemma isMemberExcluded_iff:
  "isMemberExcluded ext member \<longleftrightarrow>
     name member = None
     \<or> \<not> (isMethod member \<or> isProperty member \<or> isAccessor member)
     \<or> (\<exists>mods. modifiers member = Some mods \<and> PrivateKeyword \<in> set mods)
     \<or> (\<exists>text. name member = Some text \<and> isAngularPrivateName ext text)"
  by (auto simp: isMemberExcluded_def isDocumentableMember_def list_ex_iff
           split: option.splits)

lemma not_excluded_named:
  "\<not> isMemberExcluded ext member \<Longrightarrow> \<exists>text. name member = Some text"
  by (cases "name member") (simp_all add: isMemberExcluded_def)

lemma base_extractClassProperty_named:
  "name member = Some text \<Longrightarrow> \<exists>entry. base_extractClassProperty ext member = Inr entry"
  by (simp add: base_extractClassProperty_def)

lemma directive_extractClassProperty_named:
  "name member = Some text \<Longrightarrow>
     \<exists>entry. directive_extractClassProperty ext metadata member = Inr entry"
  by (simp add: directive_extractClassProperty_def base_extractClassProperty_def Let_def)

lemma extractClassProperty_named:
  assumes "name member = Some text"
  shows "\<exists>entry. extractClassProperty ext this member = Inr entry"
proof (cases "variant this")
  case (DirectiveExtractor metadata)
  then show ?thesis
    using directive_extractClassProperty_named[OF assms, of ext metadata]
    by (simp add: extractClassProperty_def)
qed (use base_extractClassProperty_named[OF assms, of ext]
      in \<open>simp_all add: extractClassProperty_def\<close>)

lemma extractGetterSetter_named:
  assumes "name accessor = Some text"
  shows "\<exists>entry. extractGetterSetter ext this accessor = Inr entry
           \<and> memberType entry = (if kind accessor = GetAccessor then Getter else Setter)"
proof -
  from extractClassProperty_named[OF assms, of ext this]
  obtain e where "extractClassProperty ext this accessor = Inr e" by blast
  then show ?thesis by (simp add: extractGetterSetter_def)
qed

lemma extractClassMember_method:
  assumes "member \<in> set (members (this_declaration this))"
    and "name member = Some text" and "isMethod member"
  shows "extractClassMember ext this member =
           Inr (if kind member = MethodDeclaration
                   \<and> 1 < length (filter (\<lambda>m. name m = Some text)
                                   (members (this_declaration this)))
                   \<and> (\<forall>m\<in>set (members (this_declaration this)).
                          name m = Some text \<longrightarrow> pos m \<le> pos member)
                then None else Some (extractMethod ext member))"
proof -
  have k: "kind member \<noteq> MethodSignature \<longleftrightarrow> kind member = MethodDeclaration"
    using assms(3) by (auto simp: isMethod_def)
  have np: "\<not> isProperty member" "\<not> isAccessor member"
    using assms(3) by (auto simp: isMethod_def isProperty_def isAccessor_def)
  show ?thesis
    unfolding extractClassMember_def isImplementationForOverload_member[OF assms(1,2)]
    using assms(3) np k by simp
qed

lemma extractClassMember_accessor:
  assumes "name member = Some text" and "isAccessor member"
  shows "\<exists>entry. extractClassMember ext this member = Inr (Some (PropertyMember entry))
           \<and> memberType entry = (if kind member = GetAccessor then Getter else Setter)"
proof -
  have np: "\<not> isProperty member" "\<not> isMethod member"
    using assms(2) by (auto simp: isMethod_def isProperty_def isAccessor_def)
  from extractGetterSetter_named[OF assms(1), of ext this]
  obtain e where "extractGetterSetter ext this member = Inr e"
    "memberType e = (if kind member = GetAccessor then Getter else Setter)" by blast
  then show ?thesis using np assms(2) by (simp add: extractClassMember_def)
qed

lemma extractClassMember_property:
  assumes "name member = Some text" and "isProperty member"
  shows "\<exists>entry. extractClassMember ext this member = Inr (Some (PropertyMember entry))"
proof -
  have np: "\<not> isMethod member"
    using assms(2) by (auto simp: isMethod_def isProperty_def)
  from extractClassProperty_named[OF assms(1), of ext this]
  obtain e where "extractClassProperty ext this member = Inr e" by blast
  then show ?thesis using np assms(2) by (simp add: extractClassMember_def)
qed

text \<open>No member that passes the exclusion filter makes \<open>extractClassMember\<close> throw.\<close>

lemma extractClassMember_total:
  assumes "member \<in> set (members (this_declaration this))"
    and "\<not> isMemberExcluded ext member"
  shows "\<exists>r. extractClassMember ext this member = Inr r"
proof -
  from assms(2) obtain nm where n: "name member = Some nm"
    using not_excluded_named by blast
  from assms(2) have "isMethod member \<or> isProperty member \<or> isAccessor member"
    by (simp add: isMemberExcluded_iff)
  then show ?thesis
  proof (elim disjE)
    assume "isMethod member"
    then show ?thesis using extractClassMember_method[OF assms(1) n, of ext] by simp
  next
    assume "isProperty member"
    then show ?thesis using extractClassMember_property[OF n, of ext this] by blast
  next
    assume "isAccessor member"
    then show ?thesis using extractClassMember_accessor[OF n, of ext this] by blast
  qed
qed

section \<open>The loop over the members\<close>

lemma extractAllClassMembers_loop_acc:
  "extractAllClassMembers_loop ext this ms acc =
     (case extractAllClassMembers_loop ext this ms [] of
        Inl e \<Rightarrow> Inl e | Inr out \<Rightarrow> Inr (acc @ out))"
proof (induction ms arbitrary: acc)
  case Nil
  show ?case by simp
next
  case (Cons m ms)
  show ?case
  proof (cases "isMemberExcluded ext m")
    case True
    then show ?thesis using Cons.IH[of acc] by simp
  next
    case False
    show ?thesis
    proof (cases "extractClassMember ext this m")
      case (Inl e)
      with False show ?thesis by simp
    next
      case (Inr r)
      show ?thesis
      proof (cases r)
        case None
        with False Inr show ?thesis using Cons.IH[of acc] by simp
      next
        case (Some entry)
        have "extractAllClassMembers_loop ext this (m # ms) acc
              = extractAllClassMembers_loop ext this ms (acc @ [entry])"
          using False Inr Some by simp
        also have "\<dots> = (case extractAllClassMembers_loop ext this ms [] of
                            Inl e \<Rightarrow> Inl e | Inr out \<Rightarrow> Inr (acc @ entry # out))"
          by (subst Cons.IH[of "acc @ [entry]"]) (simp split: sum.split)
        finally have l: "extractAllClassMembers_loop ext this (m # ms) acc
              = (case extractAllClassMembers_loop ext this ms [] of
                   Inl e \<Rightarrow> Inl e | Inr out \<Rightarrow> Inr (acc @ entry # out))" .
        have "extractAllClassMembers_loop ext this (m # ms) []
              = extractAllClassMembers_loop ext this ms [entry]"
          using False Inr Some by simp
        also have "\<dots> = (case extractAllClassMembers_loop ext this ms [] of
                            Inl e \<Rightarrow> Inl e | Inr out \<Rightarrow> Inr (entry # out))"
          by (subst Cons.IH[of "[entry]"]) (simp split: sum.split)
        finally have r: "extractAllClassMembers_loop ext this (m # ms) []
              = (case extractAllClassMembers_loop ext this ms [] of
                   Inl e \<Rightarrow> Inl e | Inr out \<Rightarrow> Inr (entry # out))" .
        show ?thesis unfolding l r by (simp split: sum.split)
      qed
    qed
  qed
qed

lemma extractAllClassMembers_loop_append:
  "extractAllClassMembers_loop ext this (xs @ ys) acc =
     (case extractAllClassMembers_loop ext this xs acc of
        Inl e \<Rightarrow> Inl e | Inr acc' \<Rightarrow> extractAllClassMembers_loop ext this ys acc')"
  by (induction xs arbitrary: acc) (simp_all split: sum.split option.split)

lemma extractAllClassMembers_loop_excluded:
  assumes "isMemberExcluded ext m"
  shows "extractAllClassMembers_loop ext this (xs @ m # ys) acc
         = extractAllClassMembers_loop ext this (xs @ ys) acc"
  using assms by (simp add: extractAllClassMembers_loop_append split: sum.split)

text \<open>
  When no visited member throws, the loop returns the entries of the members that pass
  the filter and give an entry, in the order of the members.
\<close>

lemma extractAllClassMembers_loop_filter_map:
  assumes "\<forall>m\<in>set ms. \<not> isMemberExcluded ext m \<longrightarrow> (\<exists>r. extractClassMember ext this m = Inr r)"
  shows "\<exists>out. extractAllClassMembers_loop ext this ms acc = Inr (acc @ out)
           \<and> map (Inr \<circ> Some) out =
               map (extractClassMember ext this)
                 (filter (\<lambda>m. \<not> isMemberExcluded ext m
                               \<and> extractClassMember ext this m \<noteq> Inr None) ms)"
  using assms
proof (induction ms arbitrary: acc)
  case Nil
  show ?case by simp
next
  case (Cons m ms)
  then have rest: "\<forall>m\<in>set ms. \<not> isMemberExcluded ext m
                     \<longrightarrow> (\<exists>r. extractClassMember ext this m = Inr r)"
    by simp
  show ?case
  proof (cases "isMemberExcluded ext m")
    case True
    then show ?thesis using Cons.IH[OF rest, of acc] by simp
  next
    case False
    with Cons.prems obtain r where r: "extractClassMember ext this m = Inr r" by auto
    show ?thesis
    proof (cases r)
      case None
      with False r show ?thesis using Cons.IH[OF rest, of acc] by simp
    next
      case (Some entry)
      from Cons.IH[OF rest, of "acc @ [entry]"] obtain out where
        out: "extractAllClassMembers_loop ext this ms (acc @ [entry]) = Inr ((acc @ [entry]) @ out)"
          "map (Inr \<circ> Some) out =
             map (extractClassMember ext this)
               (filter (\<lambda>m. \<not> isMemberExcluded ext m
                             \<and> extractClassMember ext this m \<noteq> Inr None) ms)"
        by blast
      have "extractAllClassMembers_loop ext this (m # ms) acc = Inr (acc @ (entry # out))"
        using False r Some out(1) by simp
      moreover have "map (Inr \<circ> Some) (entry # out) =
             map (extractClassMember ext this)
               (filter (\<lambda>m. \<not> isMemberExcluded ext m
                             \<and> extractClassMember ext this m \<noteq> Inr None) (m # ms))"
        using False r Some out(2) by simp
      ultimately show ?thesis by blast
    qed
  qed
qed

lemma extractAllClassMembers_own:
  "\<exists>out. extractAllClassMembers ext this (this_declaration this) = Inr out
     \<and> map (Inr \<circ> Some) out =
         map (extractClassMember ext this)
           (filter (\<lambda>m. \<not> isMemberExcluded ext m
                         \<and> extractClassMember ext this m \<noteq> Inr None)
              (members (this_declaration this)))"
proof -
  have "\<forall>m\<in>set (members (this_declaration this)).
          \<not> isMemberExcluded ext m \<longrightarrow> (\<exists>r. extractClassMember ext this m = Inr r)"
    using extractClassMember_total by blast
  from extractAllClassMembers_loop_filter_map[OF this, of "[]"]
  show ?thesis by (simp add: extractAllClassMembers_def)
qed

text \<open>Every extractor class lays its fields over the base entry and keeps the members.\<close>

lemma extractor_extract_members:
  assumes "extractAllClassMembers ext this (this_declaration this) = Inr out"
  shows "\<exists>entry. extractor_extract ext this = Inr entry \<and> entry_members entry = out"
  using assms
  by (cases "variant this") (simp_all add: extractor_extract_def base_extract_def)

lemma extractor_extract_filter_map:
  "\<exists>entry. extractor_extract ext this = Inr entry
     \<and> map (Inr \<circ> Some) (entry_members entry) =
         map (extractClassMember ext this)
           (filter (\<lambda>m. \<not> isMemberExcluded ext m
                         \<and> extractClassMember ext this m \<noteq> Inr None)
              (members (this_declaration this)))"
proof -
  from extractAllClassMembers_own[of ext this] obtain out where
    o: "extractAllClassMembers ext this (this_declaration this) = Inr out"
       "map (Inr \<circ> Some) out =
         map (extractClassMember ext this)
           (filter (\<lambda>m. \<not> isMemberExcluded ext m
                         \<and> extractClassMember ext this m \<noteq> Inr None)
              (members (this_declaration this)))"
    by blast
  from extractor_extract_members[OF o(1)] o(2) show ?thesis by auto
qed

lemma emitted_entry_in_members:
  assumes "member \<in> set (members (this_declaration this))"
    and "\<not> isMemberExcluded ext member"
    and "extractClassMember ext this member = Inr (Some e)"
  shows "\<exists>entry. extractor_extract ext this = Inr entry \<and> e \<in> set (entry_members entry)"
proof -
  let ?f = "filter (\<lambda>m. \<not> isMemberExcluded ext m
                         \<and> extractClassMember ext this m \<noteq> Inr None)
              (members (this_declaration this))"
  from extractor_extract_filter_map[of ext this] obtain entry where
    en: "extractor_extract ext this = Inr entry"
        "map (Inr \<circ> Some) (entry_members entry) = map (extractClassMember ext this) ?f"
    by blast
  have mem: "member \<in> set ?f" using assms by simp
  have "extractClassMember ext this member \<in> extractClassMember ext this ` set ?f"
    using mem by (rule imageI)
  then have "extractClassMember ext this member
             \<in> set (map (extractClassMember ext this) ?f)"
    by (simp only: set_map)
  then have "extractClassMember ext this member
             \<in> set (map (Inr \<circ> Some) (entry_members entry))"
    unfolding en(2) .
  then have "extractClassMember ext this member \<in> (Inr \<circ> Some) ` set (entry_members entry)"
    by (simp only: set_map)
  then obtain e' where "e' \<in> set (entry_members entry)"
      "extractClassMember ext this member = (Inr \<circ> Some) e'"
    by blast
  with assms(3) have "e \<in> set (entry_members entry)" by simp
  with en(1) show ?thesis by blast
qed

section \<open>Overloaded methods\<close>

text \<open>
  C1 (amended). In a declaration, a method that passes the exclusion filter gives a
  Method entry unless it is the implementation of an overload: a method declaration of
  a class whose name is carried by more than one member and whose source position is the
  last among them. So of a group of same-named method declarations of a class every
  overload signature is documented and the member at the last position, the
  implementation, gives no entry; a method signature of an interface is never an
  implementation, so every signature of a group gives an entry. An entry that is given
  appears among the members of the extracted class entry.
\<close>

theorem overload_signatures_documented:
  assumes "member \<in> set (members (this_declaration this))"
    and "\<not> isMemberExcluded ext member"
    and "isMethod member"
  shows "extractClassMember ext this member =
           Inr (if kind member = MethodDeclaration
                   \<and> 1 < length (filter (\<lambda>m. name m = name member)
                                   (members (this_declaration this)))
                   \<and> (\<forall>m\<in>set (members (this_declaration this)).
                          name m = name member \<longrightarrow> pos m \<le> pos member)
                then None else Some (extractMethod ext member))
         \<and> (extractClassMember ext this member \<noteq> Inr None \<longrightarrow>
              (\<exists>entry. extractor_extract ext this = Inr entry
                 \<and> extractMethod ext member \<in> set (entry_members entry)))"
proof -
  from assms(2) obtain nm where n: "name member = Some nm"
    using not_excluded_named by blast
  have m: "extractClassMember ext this member =
           Inr (if kind member = MethodDeclaration
                   \<and> 1 < length (filter (\<lambda>m. name m = name member)
                                   (members (this_declaration this)))
                   \<and> (\<forall>m\<in>set (members (this_declaration this)).
                          name m = name member \<longrightarrow> pos m \<le> pos member)
                then None else Some (extractMethod ext member))"
    unfolding n by (rule extractClassMember_method[OF assms(1) n assms(3)])
  have "\<exists>entry. extractor_extract ext this = Inr entry
          \<and> extractMethod ext member \<in> set (entry_members entry)"
    if "extractClassMember ext this member \<noteq> Inr None"
  proof -
    from that m have "extractClassMember ext this member = Inr (Some (extractMethod ext member))"
      by (simp split: if_splits)
    then show ?thesis by (rule emitted_entry_in_members[OF assms(1,2)])
  qed
  with m show ?thesis by blast
qed

theorem overload_signatures_documented_witness:
  "ex_foo_signature \<in> set (members (this_declaration ex_this))
   \<and> \<not> isMemberExcluded ex_ext ex_foo_signature
   \<and> isMethod ex_foo_signature
   \<and> extractClassMember ex_ext ex_this ex_foo_signature = Inr (Some (MethodEntry 10 Method []))
   \<and> (\<exists>entry. extractor_extract ex_ext ex_this = Inr entry
         \<and> MethodEntry 10 Method [] \<in> set (entry_members entry))"
proof -
  have h1: "ex_foo_signature \<in> set (members (this_declaration ex_this))"
    by (simp add: ex_this_def ex_class_def)
  have h2: "\<not> isMemberExcluded ex_ext ex_foo_signature" by code_simp
  have h3: "isMethod ex_foo_signature" by code_simp
  have e: "extractMethod ex_ext ex_foo_signature = MethodEntry 10 Method []" by code_simp
  have c: "extractClassMember ex_ext ex_this ex_foo_signature
           = Inr (Some (MethodEntry 10 Method []))" by code_simp
  from overload_signatures_documented[OF h1 h2 h3] c e
  have "\<exists>entry. extractor_extract ex_ext ex_this = Inr entry
          \<and> MethodEntry 10 Method [] \<in> set (entry_members entry)"
    by simp
  with h1 h2 h3 c show ?thesis by blast
qed

text \<open>
  C1 as stated fails. Of the two declarations of \<open>foo\<close> in a class the entry comes from
  the first, the overload signature, and the implementation at the last position gives
  none; in an interface both signatures of \<open>foo\<close> give an entry.
\<close>

theorem overload_implementation_counterexample:
  "extractAllClassMembers ex_ext ex_overload_this ex_overload_class
     = Inr [extractMethod ex_ext ex_foo_signature]
   \<and> extractAllClassMembers ex_ext ex_overload_this ex_overload_class
     \<noteq> Inr [extractMethod ex_ext ex_foo_implementation]
   \<and> extractClassMember ex_ext ex_overload_this ex_foo_implementation = Inr None
   \<and> extractAllClassMembers ex_ext ex_interface_this ex_interface
     = Inr [extractMethod ex_ext ex_first_signature, extractMethod ex_ext ex_second_signature]
   \<and> extractAllClassMembers ex_ext ex_interface_this ex_interface \<noteq> Inr []"
  by code_simp

text \<open>
  C2 (amended). For a method whose name no other member of the declaration carries, the
  overload resolver answers false (the method is not the implementation of an
  overload), and \<open>extractClassMember\<close> gives its Method entry, which appears among the
  extracted members when the method passes the exclusion filter.
\<close>

theorem lone_method_documented:
  assumes "member \<in> set (members (this_declaration this))"
    and "isMethod member"
    and "name member = Some nm"
    and "length (filter (\<lambda>m. name m = Some nm) (members (this_declaration this))) = 1"
  shows "isImplementationForOverload this member = Inr False
         \<and> extractClassMember ext this member = Inr (Some (extractMethod ext member))
         \<and> entryMemberType (extractMethod ext member) = Method
         \<and> (\<not> isMemberExcluded ext member \<longrightarrow>
              (\<exists>entry. extractor_extract ext this = Inr entry
                 \<and> extractMethod ext member \<in> set (entry_members entry)))"
proof -
  have a: "isImplementationForOverload this member = Inr False"
    using isImplementationForOverload_member[OF assms(1,3)] assms(4) by simp
  have b: "extractClassMember ext this member = Inr (Some (extractMethod ext member))"
    using extractClassMember_method[OF assms(1,3,2), of ext] assms(4) by simp
  have c: "entryMemberType (extractMethod ext member) = Method"
    by (simp add: extractMethod_def)
  have d: "\<exists>entry. extractor_extract ext this = Inr entry
             \<and> extractMethod ext member \<in> set (entry_members entry)"
    if "\<not> isMemberExcluded ext member"
    using emitted_entry_in_members[OF assms(1) that b] .
  from a b c d show ?thesis by blast
qed

theorem lone_method_documented_witness:
  "ex_bar \<in> set (members (this_declaration ex_this))
   \<and> isMethod ex_bar
   \<and> name ex_bar = Some ''bar''
   \<and> length (filter (\<lambda>m. name m = Some ''bar'') (members (this_declaration ex_this))) = 1
   \<and> \<not> isMemberExcluded ex_ext ex_bar
   \<and> isImplementationForOverload ex_this ex_bar = Inr False
   \<and> extractClassMember ex_ext ex_this ex_bar = Inr (Some (MethodEntry 50 Method []))
   \<and> (\<exists>entry. extractor_extract ex_ext ex_this = Inr entry
         \<and> MethodEntry 50 Method [] \<in> set (entry_members entry))"
proof -
  have h1: "ex_bar \<in> set (members (this_declaration ex_this))"
    by (simp add: ex_this_def ex_class_def)
  have h2: "isMethod ex_bar" by code_simp
  have h3: "name ex_bar = Some ''bar''" by code_simp
  have h4: "length (filter (\<lambda>m. name m = Some ''bar'')
                      (members (this_declaration ex_this))) = 1"
    by code_simp
  have h5: "\<not> isMemberExcluded ex_ext ex_bar" by code_simp
  have e: "extractMethod ex_ext ex_bar = MethodEntry 50 Method []" by code_simp
  from lone_method_documented[OF h1 h2 h3 h4, of ex_ext] h5 e
  have "isImplementationForOverload ex_this ex_bar = Inr False
        \<and> extractClassMember ex_ext ex_this ex_bar = Inr (Some (MethodEntry 50 Method []))
        \<and> (\<exists>entry. extractor_extract ex_ext ex_this = Inr entry
              \<and> MethodEntry 50 Method [] \<in> set (entry_members entry))"
    by simp
  with h1 h2 h3 h4 h5 show ?thesis by blast
qed

text \<open>
  C2 as stated fails: for the lone method \<open>bar\<close> the overload resolver answers false, not
  true.
\<close>

theorem lone_method_resolver_counterexample:
  "filter (\<lambda>m. name m = name ex_bar) (members (this_declaration ex_this)) = [ex_bar]
   \<and> isImplementationForOverload ex_this ex_bar = Inr False
   \<and> isImplementationForOverload ex_this ex_bar \<noteq> Inr True"
  by code_simp

section \<open>Filtering and order of the members\<close>

text \<open>
  C3. A member that has no name, or is neither method-like nor property-like nor
  accessor-like, or carries the private modifier, or has a name that the filter of
  framework-private names accepts, gives no entry, whatever its other attributes: the
  members of the extracted entry are the entries of the other members of the
  declaration, and the extraction returns what it returns on the member list without
  that member.
\<close>

theorem excluded_member_has_no_entry:
  assumes "name member = None
           \<or> \<not> (isMethod member \<or> isProperty member \<or> isAccessor member)
           \<or> (\<exists>mods. modifiers member = Some mods \<and> PrivateKeyword \<in> set mods)
           \<or> (\<exists>nm. name member = Some nm \<and> isAngularPrivateName ext nm)"
    and "members (this_declaration this) = xs @ member # ys"
  shows "(\<exists>entry. extractor_extract ext this = Inr entry
            \<and> map (Inr \<circ> Some) (entry_members entry) =
                map (extractClassMember ext this)
                  (filter (\<lambda>m. \<not> isMemberExcluded ext m
                                \<and> extractClassMember ext this m \<noteq> Inr None) (xs @ ys)))
         \<and> extractAllClassMembers ext this (this_declaration this)
           = extractAllClassMembers ext this ((this_declaration this)\<lparr> members := xs @ ys \<rparr>)"
proof -
  from assms(1) have ex: "isMemberExcluded ext member"
    by (simp only: isMemberExcluded_iff)
  have "filter (\<lambda>m. \<not> isMemberExcluded ext m \<and> extractClassMember ext this m \<noteq> Inr None)
          (members (this_declaration this))
        = filter (\<lambda>m. \<not> isMemberExcluded ext m \<and> extractClassMember ext this m \<noteq> Inr None)
            (xs @ ys)"
    unfolding assms(2) using ex by simp
  with extractor_extract_filter_map[of ext this] have a:
    "\<exists>entry. extractor_extract ext this = Inr entry
            \<and> map (Inr \<circ> Some) (entry_members entry) =
                map (extractClassMember ext this)
                  (filter (\<lambda>m. \<not> isMemberExcluded ext m
                                \<and> extractClassMember ext this m \<noteq> Inr None) (xs @ ys))"
    by simp
  have b: "extractAllClassMembers ext this (this_declaration this)
           = extractAllClassMembers ext this ((this_declaration this)\<lparr> members := xs @ ys \<rparr>)"
    unfolding extractAllClassMembers_def assms(2)
    using extractAllClassMembers_loop_excluded[OF ex, of this xs ys "[]"] by simp
  from a b show ?thesis by blast
qed

theorem excluded_member_has_no_entry_witness:
  "(\<exists>mods. modifiers ex_private = Some mods \<and> PrivateKeyword \<in> set mods)
   \<and> members (this_declaration ex_this)
       = [ex_foo_signature, ex_foo_implementation, ex_bar] @ ex_private # [ex_getter, ex_setter]
   \<and> extractAllClassMembers ex_ext ex_this (this_declaration ex_this)
       = extractAllClassMembers ex_ext ex_this
           ((this_declaration ex_this)
              \<lparr> members := [ex_foo_signature, ex_foo_implementation, ex_bar]
                            @ [ex_getter, ex_setter] \<rparr>)
   \<and> (\<exists>out. extractAllClassMembers ex_ext ex_this (this_declaration ex_this) = Inr out
          \<and> length out = 4)"
proof -
  have h1: "\<exists>mods. modifiers ex_private = Some mods \<and> PrivateKeyword \<in> set mods"
    by (simp add: ex_private_def)
  have h2: "members (this_declaration ex_this)
       = [ex_foo_signature, ex_foo_implementation, ex_bar] @ ex_private # [ex_getter, ex_setter]"
    by (simp add: ex_this_def ex_class_def)
  have h1': "name ex_private = None
           \<or> \<not> (isMethod ex_private \<or> isProperty ex_private \<or> isAccessor ex_private)
           \<or> (\<exists>mods. modifiers ex_private = Some mods \<and> PrivateKeyword \<in> set mods)
           \<or> (\<exists>nm. name ex_private = Some nm \<and> isAngularPrivateName ex_ext nm)"
    using h1 by blast
  have l: "length (case extractAllClassMembers ex_ext ex_this (this_declaration ex_this) of
                     Inl e \<Rightarrow> [] | Inr out \<Rightarrow> out) = 4"
    by code_simp
  then have o: "\<exists>out. extractAllClassMembers ex_ext ex_this (this_declaration ex_this) = Inr out
          \<and> length out = 4"
    by (cases "extractAllClassMembers ex_ext ex_this (this_declaration ex_this)") simp_all
  from excluded_member_has_no_entry[OF h1' h2] h1 h2 o show ?thesis by blast
qed

lemma filter_nth_upt:
  "filter P xs = map (\<lambda>i. xs ! i) (filter (\<lambda>i. P (xs ! i)) [0..<length xs])"
proof -
  have "filter P (map (\<lambda>i. xs ! i) [0..<length xs])
        = map (\<lambda>i. xs ! i) (filter (P \<circ> (\<lambda>i. xs ! i)) [0..<length xs])"
    by (rule filter_map)
  then show ?thesis by (simp add: map_nth comp_def)
qed

text \<open>
  C4. The members of the extracted entry are the entries of the members at a strictly
  increasing sequence of indices of the declaration's member list, namely the indices of
  the members that pass the exclusion filter and give an entry: each such member gives
  one entry, and the entries stand in the order of the members.
\<close>

theorem members_order_preserving:
  "\<exists>entry indices.
      extractor_extract ext this = Inr entry
      \<and> sorted_wrt (<) indices
      \<and> set indices =
          {i. i < length (members (this_declaration this))
              \<and> \<not> isMemberExcluded ext (members (this_declaration this) ! i)
              \<and> extractClassMember ext this (members (this_declaration this) ! i) \<noteq> Inr None}
      \<and> map (Inr \<circ> Some) (entry_members entry) =
          map (\<lambda>i. extractClassMember ext this (members (this_declaration this) ! i)) indices"
proof -
  let ?ms = "members (this_declaration this)"
  let ?P = "\<lambda>m. \<not> isMemberExcluded ext m \<and> extractClassMember ext this m \<noteq> Inr None"
  let ?is = "filter (\<lambda>i. ?P (?ms ! i)) [0..<length ?ms]"
  from extractor_extract_filter_map[of ext this] obtain entry where
    en: "extractor_extract ext this = Inr entry"
        "map (Inr \<circ> Some) (entry_members entry) = map (extractClassMember ext this) (filter ?P ?ms)"
    by blast
  have "map (extractClassMember ext this) (filter ?P ?ms)
        = map (extractClassMember ext this) (map (\<lambda>i. ?ms ! i) ?is)"
    by (subst filter_nth_upt[of ?P ?ms]) (rule refl)
  also have "\<dots> = map (\<lambda>i. extractClassMember ext this (?ms ! i)) ?is"
    by (simp add: comp_def)
  finally have m: "map (Inr \<circ> Some) (entry_members entry)
                   = map (\<lambda>i. extractClassMember ext this (?ms ! i)) ?is"
    using en(2) by simp
  have s: "sorted_wrt (<) ?is" by (rule sorted_wrt_filter) simp
  have i: "set ?is = {i. i < length ?ms \<and> ?P (?ms ! i)}" by auto
  from en(1) s i m show ?thesis by blast
qed

theorem members_order_preserving_witness:
  "\<exists>entry indices.
      extractor_extract ex_ext ex_this = Inr entry
      \<and> sorted_wrt (<) indices
      \<and> set indices = {0, 2, 4, 5}
      \<and> map (Inr \<circ> Some) (entry_members entry) =
          map (\<lambda>i. extractClassMember ex_ext ex_this (members (this_declaration ex_this) ! i))
            indices"
proof -
  have "{i. i < length (members (this_declaration ex_this))
              \<and> \<not> isMemberExcluded ex_ext (members (this_declaration ex_this) ! i)
              \<and> extractClassMember ex_ext ex_this (members (this_declaration ex_this) ! i)
                  \<noteq> Inr None}
        = set (filter (\<lambda>i. \<not> isMemberExcluded ex_ext (members (this_declaration ex_this) ! i)
              \<and> extractClassMember ex_ext ex_this (members (this_declaration ex_this) ! i)
                  \<noteq> Inr None) [0..<length (members (this_declaration ex_this))])"
    by auto
  also have "filter (\<lambda>i. \<not> isMemberExcluded ex_ext (members (this_declaration ex_this) ! i)
              \<and> extractClassMember ex_ext ex_this (members (this_declaration ex_this) ! i)
                  \<noteq> Inr None) [0..<length (members (this_declaration ex_this))]
        = [0, 2, 4, 5]"
    by code_simp
  finally have s: "{i. i < length (members (this_declaration ex_this))
              \<and> \<not> isMemberExcluded ex_ext (members (this_declaration ex_this) ! i)
              \<and> extractClassMember ex_ext ex_this (members (this_declaration ex_this) ! i)
                  \<noteq> Inr None} = {0, 2, 4, 5}"
    by simp
  from members_order_preserving[of ex_ext ex_this] show ?thesis
    unfolding s .
qed

section \<open>Accessors\<close>

lemma extractClassProperty_name:
  assumes "extractClassProperty ext this member = Inr entry"
  shows "name member = Some (prop_name entry)"
proof (cases "name member")
  case None
  then show ?thesis using assms
    by (cases "variant this")
       (simp_all add: extractClassProperty_def directive_extractClassProperty_def
          base_extractClassProperty_def)
next
  case (Some nm)
  then show ?thesis using assms
    by (cases "variant this")
       (auto simp: extractClassProperty_def directive_extractClassProperty_def
          base_extractClassProperty_def Let_def split: option.splits)
qed

lemma extractClassMember_accessor_name:
  assumes "extractClassMember ext this member = Inr (Some (PropertyMember entry))"
    and "isAccessor member"
  shows "name member = Some (prop_name entry)"
proof -
  have np: "\<not> isProperty member" "\<not> isMethod member"
    using assms(2) by (auto simp: isMethod_def isProperty_def isAccessor_def)
  from assms(1) np assms(2) obtain e where
    e: "extractClassProperty ext this member = Inr e"
       "entry = e\<lparr> memberType := (if kind member = GetAccessor then Getter else Setter) \<rparr>"
    by (auto simp: extractClassMember_def extractGetterSetter_def split: sum.splits)
  from extractClassProperty_name[OF e(1)] e(2) show ?thesis by simp
qed

lemma extractAllClassMembers_loop_Inr_acc:
  assumes "extractAllClassMembers_loop ext this ms [] = Inr out"
  shows "extractAllClassMembers_loop ext this ms acc = Inr (acc @ out)"
  by (subst extractAllClassMembers_loop_acc) (simp add: assms)

lemma extractAllClassMembers_loop_sublist:
  assumes "set ms \<subseteq> set (members (this_declaration this))"
  shows "\<exists>out. extractAllClassMembers_loop ext this ms [] = Inr out"
proof -
  have "\<forall>m\<in>set ms. \<not> isMemberExcluded ext m \<longrightarrow> (\<exists>r. extractClassMember ext this m = Inr r)"
    using assms extractClassMember_total by blast
  from extractAllClassMembers_loop_filter_map[OF this, of "[]"] show ?thesis by auto
qed

text \<open>
  C8. Two accessors of a declaration that pass the exclusion filter, such as the getter
  and the setter of one name, give two separate property entries, the entry of a get
  accessor with member type Getter and the entry of a set accessor with member type
  Setter, each under the name of its accessor. The two entries stand in the order of the
  two accessors, with the entries of the members before, between and after them around
  them: the pair is not merged and the overload rule drops neither.
\<close>

theorem accessor_pair_two_entries:
  assumes "members (this_declaration this) = xs @ a # ys @ b # zs"
    and "isAccessor a" and "isAccessor b"
    and "\<not> isMemberExcluded ext a" and "\<not> isMemberExcluded ext b"
  shows "\<exists>entry ea eb ox oy oz.
           extractor_extract ext this = Inr entry
           \<and> entry_members entry = ox @ PropertyMember ea # oy @ PropertyMember eb # oz
           \<and> memberType ea = (if kind a = GetAccessor then Getter else Setter)
           \<and> memberType eb = (if kind b = GetAccessor then Getter else Setter)
           \<and> name a = Some (prop_name ea) \<and> name b = Some (prop_name eb)
           \<and> extractAllClassMembers ext this ((this_declaration this)\<lparr> members := xs \<rparr>) = Inr ox
           \<and> extractAllClassMembers ext this ((this_declaration this)\<lparr> members := ys \<rparr>) = Inr oy
           \<and> extractAllClassMembers ext this ((this_declaration this)\<lparr> members := zs \<rparr>) = Inr oz"
proof -
  from assms(4) obtain na where na: "name a = Some na" using not_excluded_named by blast
  from assms(5) obtain nb where nb: "name b = Some nb" using not_excluded_named by blast
  from extractClassMember_accessor[OF na assms(2), of ext this] obtain ea where
    ea: "extractClassMember ext this a = Inr (Some (PropertyMember ea))"
        "memberType ea = (if kind a = GetAccessor then Getter else Setter)"
    by blast
  from extractClassMember_accessor[OF nb assms(3), of ext this] obtain eb where
    eb: "extractClassMember ext this b = Inr (Some (PropertyMember eb))"
        "memberType eb = (if kind b = GetAccessor then Getter else Setter)"
    by blast
  have "set xs \<subseteq> set (members (this_declaration this))" unfolding assms(1) by auto
  from extractAllClassMembers_loop_sublist[OF this, of ext] obtain ox where
    ox: "extractAllClassMembers_loop ext this xs [] = Inr ox" by blast
  have "set ys \<subseteq> set (members (this_declaration this))" unfolding assms(1) by auto
  from extractAllClassMembers_loop_sublist[OF this, of ext] obtain oy where
    oy: "extractAllClassMembers_loop ext this ys [] = Inr oy" by blast
  have "set zs \<subseteq> set (members (this_declaration this))" unfolding assms(1) by auto
  from extractAllClassMembers_loop_sublist[OF this, of ext] obtain oz where
    oz: "extractAllClassMembers_loop ext this zs [] = Inr oz" by blast
  have s3: "extractAllClassMembers_loop ext this (b # zs) acc = Inr (acc @ PropertyMember eb # oz)"
    for acc
    using assms(5) eb(1) extractAllClassMembers_loop_Inr_acc[OF oz, of "acc @ [PropertyMember eb]"]
    by simp
  have s2: "extractAllClassMembers_loop ext this (ys @ b # zs) acc
            = Inr (acc @ oy @ PropertyMember eb # oz)" for acc
    using extractAllClassMembers_loop_Inr_acc[OF oy, of acc] s3[of "acc @ oy"]
    by (simp add: extractAllClassMembers_loop_append)
  have s1: "extractAllClassMembers_loop ext this (a # ys @ b # zs) acc
            = Inr (acc @ PropertyMember ea # oy @ PropertyMember eb # oz)" for acc
    using assms(4) ea(1) s2[of "acc @ [PropertyMember ea]"] by simp
  have "extractAllClassMembers_loop ext this (xs @ a # ys @ b # zs) []
        = Inr (ox @ PropertyMember ea # oy @ PropertyMember eb # oz)"
    using ox s1[of ox] by (simp add: extractAllClassMembers_loop_append)
  then have "extractAllClassMembers ext this (this_declaration this)
        = Inr (ox @ PropertyMember ea # oy @ PropertyMember eb # oz)"
    by (simp add: extractAllClassMembers_def assms(1))
  from extractor_extract_members[OF this] obtain entry where
    en: "extractor_extract ext this = Inr entry"
        "entry_members entry = ox @ PropertyMember ea # oy @ PropertyMember eb # oz"
    by blast
  have names: "name a = Some (prop_name ea)" "name b = Some (prop_name eb)"
    using extractClassMember_accessor_name[OF ea(1) assms(2)]
      extractClassMember_accessor_name[OF eb(1) assms(3)] by simp_all
  have parts:
    "extractAllClassMembers ext this ((this_declaration this)\<lparr> members := xs \<rparr>) = Inr ox"
    "extractAllClassMembers ext this ((this_declaration this)\<lparr> members := ys \<rparr>) = Inr oy"
    "extractAllClassMembers ext this ((this_declaration this)\<lparr> members := zs \<rparr>) = Inr oz"
    using ox oy oz by (simp_all add: extractAllClassMembers_def)
  from en ea(2) eb(2) names parts show ?thesis by blast
qed

theorem accessor_pair_two_entries_witness:
  "members (this_declaration ex_this)
     = [ex_foo_signature, ex_foo_implementation, ex_bar, ex_private] @ ex_getter # [] @ ex_setter # []
   \<and> isAccessor ex_getter \<and> isAccessor ex_setter
   \<and> \<not> isMemberExcluded ex_ext ex_getter \<and> \<not> isMemberExcluded ex_ext ex_setter
   \<and> (\<exists>entry ea eb ox.
         extractor_extract ex_ext ex_this = Inr entry
         \<and> entry_members entry = ox @ [PropertyMember ea, PropertyMember eb]
         \<and> memberType ea = Getter \<and> memberType eb = Setter
         \<and> prop_name ea = ''v'' \<and> prop_name eb = ''v'')"
proof -
  have h1: "members (this_declaration ex_this)
     = [ex_foo_signature, ex_foo_implementation, ex_bar, ex_private] @ ex_getter # [] @ ex_setter # []"
    by (simp add: ex_this_def ex_class_def)
  have h2: "isAccessor ex_getter" by code_simp
  have h3: "isAccessor ex_setter" by code_simp
  have h4: "\<not> isMemberExcluded ex_ext ex_getter" by code_simp
  have h5: "\<not> isMemberExcluded ex_ext ex_setter" by code_simp
  have k: "kind ex_getter = GetAccessor" "kind ex_setter \<noteq> GetAccessor"
    "name ex_getter = Some ''v''" "name ex_setter = Some ''v''"
    by (simp_all add: ex_getter_def ex_setter_def)
  have z: "extractAllClassMembers ex_ext ex_this ((this_declaration ex_this)\<lparr> members := [] \<rparr>)
           = Inr []"
    by (simp add: extractAllClassMembers_def)
  from accessor_pair_two_entries[OF h1 h2 h3 h4 h5] obtain entry ea eb ox oy oz where
    r: "extractor_extract ex_ext ex_this = Inr entry"
       "entry_members entry = ox @ PropertyMember ea # oy @ PropertyMember eb # oz"
       "memberType ea = (if kind ex_getter = GetAccessor then Getter else Setter)"
       "memberType eb = (if kind ex_setter = GetAccessor then Getter else Setter)"
       "name ex_getter = Some (prop_name ea)" "name ex_setter = Some (prop_name eb)"
       "extractAllClassMembers ex_ext ex_this ((this_declaration ex_this)\<lparr> members := [] \<rparr>) = Inr oy"
       "extractAllClassMembers ex_ext ex_this ((this_declaration ex_this)\<lparr> members := [] \<rparr>) = Inr oz"
    by blast
  from r(7,8) z have "oy = []" "oz = []" by simp_all
  with r(1-6) k have
    "extractor_extract ex_ext ex_this = Inr entry
       \<and> entry_members entry = ox @ [PropertyMember ea, PropertyMember eb]
       \<and> memberType ea = Getter \<and> memberType eb = Setter
       \<and> prop_name ea = ''v'' \<and> prop_name eb = ''v''"
    by simp
  then have "\<exists>entry ea eb ox.
         extractor_extract ex_ext ex_this = Inr entry
         \<and> entry_members entry = ox @ [PropertyMember ea, PropertyMember eb]
         \<and> memberType ea = Getter \<and> memberType eb = Setter
         \<and> prop_name ea = ''v'' \<and> prop_name eb = ''v''"
    by blast
  with h1 h2 h3 h4 h5 show ?thesis by blast
qed

section \<open>Directive properties\<close>




section \<open>Tags of a member entry\<close>

lemma extractClassProperty_tags:
  assumes "extractClassProperty ext this member = Inr entry"
  shows "memberTags entry =
           getMemberTags member
           @ (case variant this of
                DirectiveExtractor metadata \<Rightarrow>
                  (case name member of
                     None \<Rightarrow> []
                   | Some nm \<Rightarrow>
                       (case getInputMetadata metadata nm of Some i \<Rightarrow> [Input] | None \<Rightarrow> [])
                       @ (case getOutputMetadata metadata nm of
                            Some out \<Rightarrow> [Output] | None \<Rightarrow> []))
              | _ \<Rightarrow> [])"
proof (cases "variant this")
  case (DirectiveExtractor metadata)
  then show ?thesis using assms
    by (auto simp: extractClassProperty_def directive_extractClassProperty_def
          base_extractClassProperty_def Let_def split: option.splits)
qed (use assms in \<open>auto simp: extractClassProperty_def base_extractClassProperty_def
                        split: option.splits\<close>)

lemma extractClassMember_entry_tags:
  assumes "extractClassMember ext this member = Inr (Some entry)"
  shows "entryMemberTags entry =
           getMemberTags member
           @ (case variant this of
                DirectiveExtractor metadata \<Rightarrow>
                  (if isMethod member then []
                   else case name member of
                     None \<Rightarrow> []
                   | Some nm \<Rightarrow>
                       (case getInputMetadata metadata nm of Some i \<Rightarrow> [Input] | None \<Rightarrow> [])
                       @ (case getOutputMetadata metadata nm of
                            Some out \<Rightarrow> [Output] | None \<Rightarrow> []))
              | _ \<Rightarrow> [])"
proof (cases "isMethod member")
  case True
  then have np: "\<not> isProperty member" "\<not> isAccessor member"
    by (auto simp: isMethod_def isProperty_def isAccessor_def)
  from assms True np have "entry = extractMethod ext member"
    by (auto simp: extractClassMember_def split: sum.splits if_splits)
  then have "entryMemberTags entry = getMemberTags member"
    by (simp add: extractMethod_def)
  then show ?thesis using True by (cases "variant this") simp_all
next
  case False
  have "\<exists>e. extractClassProperty ext this member = Inr e \<and> memberTags e = entryMemberTags entry"
  proof (cases "isProperty member")
    case True
    with assms False show ?thesis
      by (auto simp: extractClassMember_def split: sum.splits)
  next
    case np: False
    with assms False show ?thesis
      by (auto simp: extractClassMember_def extractGetterSetter_def
            split: sum.splits if_splits)
  qed
  then obtain e where e: "extractClassProperty ext this member = Inr e"
      "memberTags e = entryMemberTags entry" by blast
  from extractClassProperty_tags[OF e(1)] e(2) False show ?thesis
    by (cases "variant this") simp_all
qed

lemma distinct_with_marker_tags:
  assumes "Optional \<notin> set xs" "Input \<notin> set xs" "Output \<notin> set xs"
    and "os = [] \<or> os = [Optional]"
    and "bs = [] \<or> bs = [Input] \<or> bs = [Output] \<or> bs = [Input, Output]"
  shows "distinct (xs @ os @ bs) \<longleftrightarrow> distinct xs"
  using assms by auto

text \<open>
  C7 (amended). The \<open>memberTags\<close> of the entry of a documented member are: the member's
  modifiers mapped through the table static to Static, readonly to Readonly, protected
  to Protected, abstract to Abstract (any other modifier gives no tag), in modifier
  order; then Optional exactly when the member has the optional marker; then, only for
  a property or accessor that the directive extractor documents, Input when the
  property is bound as an input and Output when it is bound as an output. No tag
  appears twice in the list exactly when none of the four tag-bearing modifiers is
  repeated among the member's modifiers: the code removes no duplicates.
\<close>

theorem member_entry_tags:
  assumes "extractClassMember ext this member = Inr (Some entry)"
  shows "entryMemberTags entry =
           List.map_filter getTagForMemberModifier
             (case modifiers member of None \<Rightarrow> [] | Some mods \<Rightarrow> mods)
           @ (if questionToken member then [Optional] else [])
           @ (case variant this of
                DirectiveExtractor metadata \<Rightarrow>
                  (if isMethod member then []
                   else case name member of
                     None \<Rightarrow> []
                   | Some nm \<Rightarrow>
                       (case getInputMetadata metadata nm of Some i \<Rightarrow> [Input] | None \<Rightarrow> [])
                       @ (case getOutputMetadata metadata nm of
                            Some out \<Rightarrow> [Output] | None \<Rightarrow> []))
              | _ \<Rightarrow> [])
         \<and> getTagForMemberModifier StaticKeyword = Some Static
         \<and> getTagForMemberModifier ReadonlyKeyword = Some Readonly
         \<and> getTagForMemberModifier ProtectedKeyword = Some Protected
         \<and> getTagForMemberModifier AbstractKeyword = Some Abstract
         \<and> (k \<notin> {StaticKeyword, ReadonlyKeyword, ProtectedKeyword, AbstractKeyword}
              \<longrightarrow> getTagForMemberModifier k = None)
         \<and> (distinct (entryMemberTags entry) \<longleftrightarrow>
              distinct (filter (\<lambda>k. getTagForMemberModifier k \<noteq> None)
                          (case modifiers member of None \<Rightarrow> [] | Some mods \<Rightarrow> mods)))"
proof -
  let ?mods = "case modifiers member of None \<Rightarrow> [] | Some mods \<Rightarrow> mods"
  let ?xs = "List.map_filter getTagForMemberModifier ?mods"
  let ?os = "if questionToken member then [Optional] else []"
  let ?bs = "case variant this of
                DirectiveExtractor metadata \<Rightarrow>
                  (if isMethod member then []
                   else case name member of
                     None \<Rightarrow> []
                   | Some nm \<Rightarrow>
                       (case getInputMetadata metadata nm of Some i \<Rightarrow> [Input] | None \<Rightarrow> [])
                       @ (case getOutputMetadata metadata nm of
                            Some out \<Rightarrow> [Output] | None \<Rightarrow> []))
              | _ \<Rightarrow> []"
  have tags: "entryMemberTags entry = ?xs @ ?os @ ?bs"
    using extractClassMember_entry_tags[OF assms]
    by (simp only: getMemberTags_map_filter append_assoc)
  have os: "?os = [] \<or> ?os = [Optional]" by simp
  have bs: "?bs = [] \<or> ?bs = [Input] \<or> ?bs = [Output] \<or> ?bs = [Input, Output]"
    by (cases "variant this") (auto split: option.splits)
  have "distinct (?xs @ ?os @ ?bs) \<longleftrightarrow> distinct ?xs"
    using optional_not_from_modifier[of ?mods] binding_tags_not_from_modifier[of ?mods] os bs
    by (intro distinct_with_marker_tags) blast+
  then have dist: "distinct (entryMemberTags entry) \<longleftrightarrow>
        distinct (filter (\<lambda>k. getTagForMemberModifier k \<noteq> None) ?mods)"
    by (simp only: tags distinct_tags_iff)
  from tags getTagForMemberModifier_table[of k] dist show ?thesis by blast
qed

theorem member_entry_tags_witness:
  "extractClassMember ex_ext ex_directive_this ex_value_property
     = Inr (Some (PropertyMember ex_value_entry))
   \<and> entryMemberTags (PropertyMember ex_value_entry) = [Readonly, Input, Output]
   \<and> distinct (entryMemberTags (PropertyMember ex_value_entry))
   \<and> extractClassMember ex_ext ex_this ex_tagged_member
       = Inr (Some (PropertyMember ex_tagged_entry))
   \<and> entryMemberTags (PropertyMember ex_tagged_entry) = [Static, Readonly, Optional]
   \<and> extractClassMember ex_ext ex_this ex_bar = Inr (Some (extractMethod ex_ext ex_bar))
   \<and> entryMemberTags (extractMethod ex_ext ex_bar) = []"
proof -
  have p: "extractClassMember ex_ext ex_this ex_tagged_member
             = Inr (Some (PropertyMember ex_tagged_entry))"
    by code_simp
  have w: "modifiers ex_tagged_member = Some [PublicKeyword, StaticKeyword, ReadonlyKeyword]"
    "questionToken ex_tagged_member = True"
    by (simp_all add: ex_tagged_member_def)
  have h: "extractClassMember ex_ext ex_directive_this ex_value_property
             = Inr (Some (PropertyMember ex_value_entry))"
    by code_simp
  have g: "extractClassMember ex_ext ex_this ex_bar = Inr (Some (extractMethod ex_ext ex_bar))"
    by code_simp
  have v: "variant ex_directive_this = DirectiveExtractor ex_directive_meta"
    "variant ex_this = ClassExtractor"
    "modifiers ex_value_property = Some [ReadonlyKeyword]"
    "questionToken ex_value_property = False" "\<not> isMethod ex_value_property"
    "name ex_value_property = Some ''value''"
    "modifiers ex_bar = None" "questionToken ex_bar = False"
    by (simp_all add: ex_directive_this_def ex_this_def ex_value_property_def ex_bar_def
          isMethod_def)
  have i: "getInputMetadata ex_directive_meta ''value'' \<noteq> None"
    "getOutputMetadata ex_directive_meta ''value'' \<noteq> None"
    by (simp_all add: getInputMetadata_def getOutputMetadata_def ex_directive_meta_def)
  from member_entry_tags[OF h, of PublicKeyword] v i
  have a: "entryMemberTags (PropertyMember ex_value_entry) = [Readonly, Input, Output]
           \<and> distinct (entryMemberTags (PropertyMember ex_value_entry))"
    by (auto split: option.splits)
  from member_entry_tags[OF g, of PublicKeyword] v
  have b: "entryMemberTags (extractMethod ex_ext ex_bar) = []"
    by simp
  from member_entry_tags[OF p, of PublicKeyword] v w
  have c: "entryMemberTags (PropertyMember ex_tagged_entry) = [Static, Readonly, Optional]"
    by simp
  from h g p a b c show ?thesis by blast
qed

text \<open>
  C7 as stated fails. The entry of a directive property that is bound as an input and
  as an output carries Input and Output after the tag of its modifier, so its list is
  not the modifiers mapped through the table followed by Optional. And the entry of a
  member whose modifier list holds \<open>readonly\<close> twice carries Readonly twice.
\<close>

theorem member_entry_tags_counterexample:
  "extractClassMember ex_ext ex_directive_this ex_value_property
     = Inr (Some (PropertyMember ex_value_entry))
   \<and> memberTags ex_value_entry = [Readonly, Input, Output]
   \<and> memberTags ex_value_entry \<noteq>
       List.map_filter getTagForMemberModifier
         (case modifiers ex_value_property of None \<Rightarrow> [] | Some mods \<Rightarrow> mods)
       @ (if questionToken ex_value_property then [Optional] else [])
   \<and> extractAllClassMembers ex_ext ex_repeated_this ex_repeated_class
     = Inr [PropertyMember ex_repeated_entry]
   \<and> memberTags ex_repeated_entry = [Readonly, Readonly]
   \<and> \<not> distinct (memberTags ex_repeated_entry)"
  by code_simp

section \<open>The choice of the extractor\<close>

lemma extractor_extract_fields:
  "\<exists>entry. extractor_extract ext this = Inr entry
     \<and> entryType entry =
         (case variant this of
            ClassExtractor \<Rightarrow>
              (if decl_kind (this_declaration this) = InterfaceDeclaration
               then Interface else UndecoratedClass)
          | DirectiveExtractor dm \<Rightarrow> (if isComponent dm then Component else Directive)
          | PipeExtractor pm \<Rightarrow> Pipe
          | NgModuleExtractor nm \<Rightarrow> NgModule)
     \<and> isStandalone entry =
         (case variant this of
            DirectiveExtractor dm \<Rightarrow> Some (dir_isStandalone dm)
          | PipeExtractor pm \<Rightarrow> Some (pipe_isStandalone pm)
          | _ \<Rightarrow> None)
     \<and> selector entry =
         (case variant this of
            DirectiveExtractor dm \<Rightarrow> Some (case dir_selector dm of None \<Rightarrow> [] | Some s \<Rightarrow> s)
          | _ \<Rightarrow> None)
     \<and> pipeName entry =
         (case variant this of PipeExtractor pm \<Rightarrow> Some (pipe_name pm) | _ \<Rightarrow> None)"
proof -
  from extractAllClassMembers_own[of ext this] obtain out where
    "extractAllClassMembers ext this (this_declaration this) = Inr out" by blast
  then show ?thesis
    by (cases "variant this") (simp_all add: extractor_extract_def base_extract_def)
qed

text \<open>
  C5. \<open>extractClass\<close> returns an entry, and it is the entry of the directive extractor
  when the directive lookup finds metadata, whatever the two other lookups find;
  otherwise that of the pipe extractor when the pipe lookup finds metadata; otherwise
  that of the module extractor when the module lookup finds metadata; otherwise the
  entry of the generic class extractor. The entry type and the added fields follow the
  extractor chosen: with directive and pipe metadata both present the entry is a
  Directive or Component entry and has no pipe name.
\<close>

theorem extractClass_priority:
  "\<exists>entry.
     extractClass ext classDeclaration metadataReader = Inr entry
     \<and> (case getDirectiveMetadata metadataReader classDeclaration of
          Some dm \<Rightarrow>
            extractClass ext classDeclaration metadataReader =
              extractor_extract ext
                \<lparr> this_declaration = classDeclaration, variant = DirectiveExtractor dm \<rparr>
            \<and> entryType entry = (if isComponent dm then Component else Directive)
            \<and> isStandalone entry = Some (dir_isStandalone dm)
            \<and> selector entry = Some (case dir_selector dm of None \<Rightarrow> [] | Some s \<Rightarrow> s)
            \<and> pipeName entry = None
        | None \<Rightarrow>
            (case getPipeMetadata metadataReader classDeclaration of
               Some pm \<Rightarrow>
                 extractClass ext classDeclaration metadataReader =
                   extractor_extract ext
                     \<lparr> this_declaration = classDeclaration, variant = PipeExtractor pm \<rparr>
                 \<and> entryType entry = Pipe
                 \<and> pipeName entry = Some (pipe_name pm)
                 \<and> isStandalone entry = Some (pipe_isStandalone pm)
                 \<and> selector entry = None
             | None \<Rightarrow>
                 (case getNgModuleMetadata metadataReader classDeclaration of
                    Some nm \<Rightarrow>
                      extractClass ext classDeclaration metadataReader =
                        extractor_extract ext
                          \<lparr> this_declaration = classDeclaration,
                            variant = NgModuleExtractor nm \<rparr>
                      \<and> entryType entry = NgModule
                      \<and> pipeName entry = None \<and> selector entry = None
                      \<and> isStandalone entry = None
                  | None \<Rightarrow>
                      extractClass ext classDeclaration metadataReader =
                        base_extract ext
                          \<lparr> this_declaration = classDeclaration, variant = ClassExtractor \<rparr>
                      \<and> entryType entry =
                          (if decl_kind classDeclaration = InterfaceDeclaration
                           then Interface else UndecoratedClass)
                      \<and> pipeName entry = None \<and> selector entry = None
                      \<and> isStandalone entry = None)))"
proof (cases "getDirectiveMetadata metadataReader classDeclaration")
  case (Some dm)
  then show ?thesis
    using extractor_extract_fields
      [of ext "\<lparr> this_declaration = classDeclaration, variant = DirectiveExtractor dm \<rparr>"]
    by (auto simp: extractClass_def Let_def)
next
  case None
  note d = None
  show ?thesis
  proof (cases "getPipeMetadata metadataReader classDeclaration")
    case (Some pm)
    then show ?thesis
      using d extractor_extract_fields
        [of ext "\<lparr> this_declaration = classDeclaration, variant = PipeExtractor pm \<rparr>"]
      by (auto simp: extractClass_def Let_def)
  next
    case None
    note p = None
    show ?thesis
    proof (cases "getNgModuleMetadata metadataReader classDeclaration")
      case (Some nm)
      then show ?thesis
        using d p extractor_extract_fields
          [of ext "\<lparr> this_declaration = classDeclaration, variant = NgModuleExtractor nm \<rparr>"]
        by (auto simp: extractClass_def Let_def)
    next
      case None
      have b: "extractor_extract ext \<lparr> this_declaration = classDeclaration, variant = ClassExtractor \<rparr>
               = base_extract ext \<lparr> this_declaration = classDeclaration, variant = ClassExtractor \<rparr>"
        by (simp add: extractor_extract_def split: sum.split)
      from None show ?thesis
        using d p b extractor_extract_fields
          [of ext "\<lparr> this_declaration = classDeclaration, variant = ClassExtractor \<rparr>"]
        by (auto simp: extractClass_def Let_def)
    qed
  qed
qed

theorem extractClass_priority_witness:
  "getDirectiveMetadata ex_reader ex_directive_class = Some ex_directive_meta
   \<and> getPipeMetadata ex_reader ex_directive_class = Some ex_pipe_meta
   \<and> (\<exists>entry. extractClass ex_ext ex_directive_class ex_reader = Inr entry
         \<and> entryType entry = Directive
         \<and> isStandalone entry = Some True
         \<and> selector entry = Some ''[ex]''
         \<and> pipeName entry = None)"
proof -
  have d: "getDirectiveMetadata ex_reader ex_directive_class = Some ex_directive_meta"
    by (simp add: ex_reader_def)
  have p: "getPipeMetadata ex_reader ex_directive_class = Some ex_pipe_meta"
    by (simp add: ex_reader_def)
  have m: "isComponent ex_directive_meta = False" "dir_isStandalone ex_directive_meta = True"
    "dir_selector ex_directive_meta = Some ''[ex]''"
    by (simp_all add: ex_directive_meta_def)
  from extractClass_priority[of ex_ext ex_directive_class ex_reader]
  have "\<exists>entry. extractClass ex_ext ex_directive_class ex_reader = Inr entry
         \<and> entryType entry = Directive
         \<and> isStandalone entry = Some True
         \<and> selector entry = Some ''[ex]''
         \<and> pipeName entry = None"
    unfolding d option.case m by auto
  with d p show ?thesis by blast
qed

end
